theory Spec2Isabelle
  imports Main "HOL-Library.Word"
begin

unbundle bit_operations_syntax

section \<open>Machine types, errno values and the host environment\<close>

text \<open>
  The two C files are embedded shallowly. \<open>uint64_t\<close>, \<open>size_t\<close> and \<open>hwaddr\<close> are
  64-bit words, C \<open>int\<close> (the \<open>res\<close> variables and \<open>errno\<close>) is a 32-bit word read
  with \<open>sint\<close>; \<open>(uint64_t)res\<close> is the sign extension \<open>scast\<close>. File descriptors
  are small integers and are kept as \<open>int\<close>.
\<close>

type_synonym u64 = "64 word"
type_synonym c_int = "32 word"

text \<open>Values of \<open>errno.h\<close> on Linux (a system header, not part of the repository).\<close>

definition EIO :: c_int where "EIO = 5"
definition E2BIG :: c_int where "E2BIG = 7"
definition EFAULT :: c_int where "EFAULT = 14"
definition ENOSPC :: c_int where "ENOSPC = 28"
definition EOPNOTSUPP :: c_int where "EOPNOTSUPP = 95"

text \<open>
  Every abort of the C code is a value: a failed \<open>assert\<close>, \<open>fv_panic\<close> (which calls
  \<open>exit\<close>), the dereference of a null pointer, and an index past the end of an array.
\<close>

datatype fatal = AssertFailed | ElemTooShort | ElemTooLarge | Panic | NullDeref | OutOfBounds

text \<open>
  The device talks to the host kernel through \<open>mmap\<close>, \<open>msync\<close>, \<open>pread\<close>,
  \<open>pwrite\<close> and \<open>close\<close>. A call is recorded with its arguments; the world is the
  list of calls made so far. What a call returns is not decided by the program: the
  kernel is a parameter that maps the history and the call to the returned value and
  the value of \<open>errno\<close> after the call. \<open>MemoryRegionFind\<close> records a lookup in the
  guest's physical memory map.
\<close>

datatype syscall =
    MmapFile u64 u64 bool bool int u64
      \<comment> \<open>\<open>mmap(addr, len, prot R, prot W, MAP_SHARED | MAP_FIXED, fd, offset)\<close>\<close>
  | MmapAnon u64 u64
      \<comment> \<open>\<open>mmap(addr, len, PROT_NONE, MAP_PRIVATE | MAP_ANONYMOUS | MAP_FIXED, -1, 0)\<close>\<close>
  | Msync u64 u64
      \<comment> \<open>\<open>msync(addr, len, MS_SYNC)\<close>\<close>
  | MemoryRegionFind u64 u64
      \<comment> \<open>\<open>memory_region_find(get_system_memory(), gpa, len)\<close>\<close>
  | Pread int u64 u64 u64
      \<comment> \<open>\<open>pread(fd, hostptr, count, offset)\<close>\<close>
  | Pwrite int u64 u64 u64
      \<comment> \<open>\<open>pwrite(fd, hostptr, count, offset)\<close>\<close>
  | Close int

type_synonym world = "syscall list"
type_synonym kernel = "world \<Rightarrow> syscall \<Rightarrow> u64 \<times> c_int"

text \<open>
  POSIX: a failed call leaves a positive value in \<open>errno\<close>. \<open>mmap\<close> with
  \<open>MAP_FIXED\<close> fails when it does not return the address asked for, \<open>msync\<close> when
  it does not return 0, \<open>pread\<close> and \<open>pwrite\<close> when they return a negative count.
\<close>

fun sys_failed :: "syscall \<Rightarrow> u64 \<Rightarrow> bool" where
  "sys_failed (MmapFile addr _ _ _ _ _) ret = (ret \<noteq> addr)"
| "sys_failed (MmapAnon addr _) ret = (ret \<noteq> addr)"
| "sys_failed (Msync _ _) ret = (ret \<noteq> 0)"
| "sys_failed (Pread _ _ _ _) ret = (ret <s 0)"
| "sys_failed (Pwrite _ _ _ _) ret = (ret <s 0)"
| "sys_failed _ ret = False"

definition posix_errno :: "kernel \<Rightarrow> bool" where
  "posix_errno K = (\<forall>w c. sys_failed c (fst (K w c)) \<longrightarrow> 0 <s snd (K w c))"

section \<open>The DAX cache controller of the device\<close>

text \<open>
  \<open>VhostUserFSSlaveMsg\<close> holds four arrays of \<open>VHOST_USER_FS_SLAVE_ENTRIES\<close> words
  (\<open>flags[i]\<close>, \<open>fd_offset[i]\<close>, \<open>c_offset[i]\<close>, \<open>len[i]\<close>). The model keeps the
  message as the list of its entries, entry \<open>i\<close> holding the four words of index
  \<open>i\<close>; the loops over \<open>i\<close> are recursions over the list.
\<close>

record slave_entry =
  sm_flags :: u64
  sm_fd_offset :: u64
  sm_c_offset :: u64
  sm_len :: u64

type_synonym VhostUserFSSlaveMsg = "slave_entry list"

text \<open>
  Modelled from the spec: the flag bits are declared in a header that is not part of
  the sources; the spec gives bit 0 for a readable and bit 1 for a writable mapping.
\<close>

definition VHOST_USER_FS_FLAG_MAP_R :: u64 where "VHOST_USER_FS_FLAG_MAP_R = 1"
definition VHOST_USER_FS_FLAG_MAP_W :: u64 where "VHOST_USER_FS_FLAG_MAP_W = 2"

text \<open>
  What the functions read of \<open>VHostUserFS\<close>: \<open>fs->conf.cache_size\<close> and the host
  address of the cache window, \<open>memory_region_get_ram_ptr(&fs->cache)\<close>. The result of
  \<open>VHOST_USER_FS(dev->vdev)\<close> is an option: \<open>None\<close> is the null pointer.
\<close>

record VHostUserFS =
  cache_size :: u64
  cache_host :: u64

text \<open>
  The bounds test that MAP, UNMAP and SYNC each write out:
  \<open>(c_offset + len) < len || (c_offset + len) > cache_size\<close>, in 64-bit arithmetic.
\<close>

definition bad_offset_len :: "VHostUserFS \<Rightarrow> slave_entry \<Rightarrow> bool" where
  "bad_offset_len fs e =
     (sm_c_offset e + sm_len e < sm_len e \<or> sm_c_offset e + sm_len e > cache_size fs)"

subsection \<open>UNMAP\<close>

text \<open>
  The loop of \<open>vhost_user_fs_slave_unmap\<close>. It returns the last error, the message as
  the loop leaves it (\<open>sm->len[i] = cache_size\<close> is a write into the caller's message)
  and the world. A failure is recorded in \<open>res\<close> and the loop goes on.
\<close>

fun unmap_loop ::
  "kernel \<Rightarrow> VHostUserFS \<Rightarrow> VhostUserFSSlaveMsg \<Rightarrow> c_int \<Rightarrow> world
     \<Rightarrow> c_int \<times> VhostUserFSSlaveMsg \<times> world" where
  "unmap_loop K fs [] res w = (res, [], w)"
| "unmap_loop K fs (e # es) res w =
     (if sm_len e = 0 then
        (case unmap_loop K fs es res w of (r, es', w') \<Rightarrow> (r, e # es', w'))
      else
        let e' = (if sm_len e = - 1 then e\<lparr>sm_len := cache_size fs\<rparr> else e) in
        if bad_offset_len fs e' then
          (case unmap_loop K fs es (- 1) w of (r, es', w') \<Rightarrow> (r, e' # es', w'))
        else
          let c = MmapAnon (cache_host fs + sm_c_offset e') (sm_len e');
              res' = (if fst (K w c) \<noteq> cache_host fs + sm_c_offset e'
                      then - snd (K w c) else res)
          in (case unmap_loop K fs es res' (w @ [c]) of (r, es', w') \<Rightarrow> (r, e' # es', w')))"

text \<open>
  \<open>sm->len[0]\<close> with the cache disabled reads the first entry; the C array always has
  one, an empty list stands for no message at all and is refused.
\<close>

definition vhost_user_fs_slave_unmap ::
  "kernel \<Rightarrow> VHostUserFS option \<Rightarrow> VhostUserFSSlaveMsg \<Rightarrow> world
     \<Rightarrow> u64 \<times> VhostUserFSSlaveMsg \<times> world" where
  "vhost_user_fs_slave_unmap K fso sm w =
     (case fso of
        None \<Rightarrow> (- 1, sm, w)
      | Some fs \<Rightarrow>
          if cache_size fs = 0 then
            (case sm of
               e # _ \<Rightarrow> if sm_len e = - 1 then (0, sm, w) else (- 1, sm, w)
             | [] \<Rightarrow> (- 1, sm, w))
          else
            (case unmap_loop K fs sm 0 w of (res, sm', w') \<Rightarrow> (scast res, sm', w')))"

subsection \<open>MAP\<close>

text \<open>
  The loop of \<open>vhost_user_fs_slave_map\<close>: it stops (\<open>break\<close>) at the first entry that
  is out of bounds (\<open>res = -1\<close>, no call) or whose \<open>mmap\<close> fails (\<open>res = -errno\<close>).
\<close>

definition map_call :: "VHostUserFS \<Rightarrow> int \<Rightarrow> slave_entry \<Rightarrow> syscall" where
  "map_call fs fd e =
     MmapFile (cache_host fs + sm_c_offset e) (sm_len e)
       (sm_flags e AND VHOST_USER_FS_FLAG_MAP_R \<noteq> 0)
       (sm_flags e AND VHOST_USER_FS_FLAG_MAP_W \<noteq> 0)
       fd (sm_fd_offset e)"

fun map_loop ::
  "kernel \<Rightarrow> VHostUserFS \<Rightarrow> int \<Rightarrow> VhostUserFSSlaveMsg \<Rightarrow> world \<Rightarrow> c_int \<times> world" where
  "map_loop K fs fd [] w = (0, w)"
| "map_loop K fs fd (e # es) w =
     (if sm_len e = 0 then map_loop K fs fd es w
      else if bad_offset_len fs e then (- 1, w)
      else if fst (K w (map_call fs fd e)) \<noteq> cache_host fs + sm_c_offset e
        then (- snd (K w (map_call fs fd e)), w @ [map_call fs fd e])
      else map_loop K fs fd es (w @ [map_call fs fd e]))"

definition vhost_user_fs_slave_map ::
  "kernel \<Rightarrow> VHostUserFS option \<Rightarrow> VhostUserFSSlaveMsg \<Rightarrow> int \<Rightarrow> world
     \<Rightarrow> u64 \<times> VhostUserFSSlaveMsg \<times> world" where
  "vhost_user_fs_slave_map K fso sm fd w =
     (case fso of
        None \<Rightarrow> (- 1, sm, w)
      | Some fs \<Rightarrow>
          if cache_size fs = 0 then (- 1, sm, w)
          else if fd < 0 then (- 1, sm, w)
          else
            (case map_loop K fs fd sm w of
               (res, w1) \<Rightarrow>
                 if res \<noteq> 0 then
                   (case vhost_user_fs_slave_unmap K fso sm w1 of
                      (_, sm', w2) \<Rightarrow> (scast res, sm', w2))
                 else (scast res, sm, w1)))"

subsection \<open>SYNC\<close>

text \<open>
  \<open>vhost_user_fs_slave_sync\<close> reads \<open>fs->conf.cache_size\<close> without testing \<open>fs\<close>: a
  null \<open>fs\<close> is a null dereference.
\<close>

fun sync_loop ::
  "kernel \<Rightarrow> VHostUserFS \<Rightarrow> VhostUserFSSlaveMsg \<Rightarrow> c_int \<Rightarrow> world \<Rightarrow> c_int \<times> world" where
  "sync_loop K fs [] res w = (res, w)"
| "sync_loop K fs (e # es) res w =
     (if sm_len e = 0 then sync_loop K fs es res w
      else if bad_offset_len fs e then sync_loop K fs es (- 1) w
      else
        let c = Msync (cache_host fs + sm_c_offset e) (sm_len e);
            res' = (if fst (K w c) \<noteq> 0 then - snd (K w c) else res)
        in sync_loop K fs es res' (w @ [c]))"

definition vhost_user_fs_slave_sync ::
  "kernel \<Rightarrow> VHostUserFS option \<Rightarrow> VhostUserFSSlaveMsg \<Rightarrow> world \<Rightarrow> fatal + u64 \<times> world" where
  "vhost_user_fs_slave_sync K fso sm w =
     (case fso of
        None \<Rightarrow> Inl NullDeref
      | Some fs \<Rightarrow>
          if cache_size fs = 0 then Inr (- 1, w)
          else (case sync_loop K fs sm 0 w of (res, w') \<Rightarrow> Inr (scast res, w')))"

subsection \<open>IO\<close>

text \<open>
  What \<open>vhost_user_fs_slave_io\<close> reads of the \<open>MemoryRegionSection\<close> that
  \<open>memory_region_find\<close> returns: its size, whether its region is read-only, and the
  host pointer \<open>qemu_map_ram_ptr(mrs.mr->ram_block, mrs.offset_within_region)\<close>. The
  guest's memory map is a parameter.
\<close>

record MemoryRegionSection =
  mrs_size :: u64
  mrs_readonly :: bool
  mrs_hostptr :: u64

type_synonym memory_map = "u64 \<Rightarrow> u64 \<Rightarrow> MemoryRegionSection"

text \<open>
  One pass through the body of the inner loop \<open>while (len && !res)\<close>: the lookup
  of \<open>gpa\<close>, the transfer of \<open>mrs.size\<close> bytes at \<open>sm->fd_offset[i]\<close>, and the
  updates \<open>done += transferred; len -= transferred\<close>. \<open>Break\<close> leaves the loop,
  \<open>Continue\<close> goes to the next test of the loop condition. The state is
  \<open>(res, done, len, world)\<close>; \<open>gpa\<close> and the file offset are not assigned in the body.
\<close>

datatype 'a loop_step = Break 'a | Continue 'a

definition io_body ::
  "kernel \<Rightarrow> memory_map \<Rightarrow> int \<Rightarrow> slave_entry \<Rightarrow> u64 \<Rightarrow> u64 \<Rightarrow> c_int \<Rightarrow> u64 \<Rightarrow> world
     \<Rightarrow> fatal + (c_int \<times> u64 \<times> u64 \<times> world) loop_step" where
  "io_body K mm fd e gpa len res done w =
     (let mrs = mm gpa len; w1 = w @ [MemoryRegionFind gpa len] in
      if mrs_size mrs = 0 then Inr (Break (- EFAULT, done, len, w1))
      else if sm_flags e AND VHOST_USER_FS_FLAG_MAP_R \<noteq> 0 \<and> mrs_readonly mrs
        then Inr (Break (- EFAULT, done, len, w1))
      else if sm_flags e AND VHOST_USER_FS_FLAG_MAP_R = 0
              \<and> sm_flags e AND VHOST_USER_FS_FLAG_MAP_W = 0
        then Inl AssertFailed
      else
        let c = (if sm_flags e AND VHOST_USER_FS_FLAG_MAP_R \<noteq> 0
                 then Pread fd (mrs_hostptr mrs) (mrs_size mrs) (sm_fd_offset e)
                 else Pwrite fd (mrs_hostptr mrs) (mrs_size mrs) (sm_fd_offset e));
            transferred = fst (K w1 c);
            w2 = w1 @ [c]
        in if transferred <s 0 then Inr (Break (- snd (K w1 c), done, len, w2))
           else if transferred = 0 then Inr (Break (res, done, len, w2))
           else Inr (Continue (res, done + transferred, len - transferred, w2)))"

text \<open>
  The loop itself. It is a partial function: nothing in the code bounds what
  \<open>pread\<close> returns, and \<open>len -= transferred\<close> wraps around.
\<close>

partial_function (option) io_while ::
  "kernel \<Rightarrow> memory_map \<Rightarrow> int \<Rightarrow> slave_entry \<Rightarrow> u64 \<Rightarrow> u64 \<Rightarrow> c_int \<Rightarrow> u64 \<Rightarrow> world
     \<Rightarrow> (fatal + c_int \<times> u64 \<times> world) option" where
  "io_while K mm fd e gpa len res done w =
     (if len = 0 \<or> res \<noteq> 0 then Some (Inr (res, done, w))
      else
        (case io_body K mm fd e gpa len res done w of
           Inl f \<Rightarrow> Some (Inl f)
         | Inr (Break (res', done', len', w')) \<Rightarrow> Some (Inr (res', done', w'))
         | Inr (Continue (res', done', len', w')) \<Rightarrow>
             io_while K mm fd e gpa len' res' done' w'))"

text \<open>
  The outer loop \<open>for (i = 0; i < VHOST_USER_FS_SLAVE_ENTRIES && !res; i++)\<close>.
\<close>

fun io_loop ::
  "kernel \<Rightarrow> memory_map \<Rightarrow> int \<Rightarrow> VhostUserFSSlaveMsg \<Rightarrow> c_int \<Rightarrow> u64 \<Rightarrow> world
     \<Rightarrow> (fatal + c_int \<times> u64 \<times> world) option" where
  "io_loop K mm fd [] res done w = Some (Inr (res, done, w))"
| "io_loop K mm fd (e # es) res done w =
     (if res \<noteq> 0 then Some (Inr (res, done, w))
      else if sm_len e = 0 then io_loop K mm fd es res done w
      else
        (case io_while K mm fd e (sm_c_offset e) (sm_len e) res done w of
           None \<Rightarrow> None
         | Some (Inl f) \<Rightarrow> Some (Inl f)
         | Some (Inr (res', done', w')) \<Rightarrow> io_loop K mm fd es res' done' w'))"

text \<open>
  \<open>vhost_user_fs_slave_io\<close>: \<open>fs\<close> and \<open>fd\<close> are tested, the cache size is not read.
  After the loops the descriptor is closed and the result is \<open>res\<close> when it is
  negative and \<open>done\<close> otherwise.
\<close>

definition vhost_user_fs_slave_io ::
  "kernel \<Rightarrow> memory_map \<Rightarrow> VHostUserFS option \<Rightarrow> VhostUserFSSlaveMsg \<Rightarrow> int \<Rightarrow> world
     \<Rightarrow> (fatal + u64 \<times> world) option" where
  "vhost_user_fs_slave_io K mm fso sm fd w =
     (case fso of
        None \<Rightarrow> Some (Inr (- 1, w))
      | Some fs \<Rightarrow>
          if fd < 0 then Some (Inr (- 1, w))
          else
            (case io_loop K mm fd sm 0 0 w of
               None \<Rightarrow> None
             | Some (Inl f) \<Rightarrow> Some (Inl f)
             | Some (Inr (res, done, w')) \<Rightarrow>
                 Some (Inr (if res <s 0 then scast res else done, w' @ [Close fd]))))"

section \<open>The daemon: memory, iovecs and the descriptor copier\<close>

text \<open>
  \<open>fuse_virtio.c\<close> copies between buffers that are named by address: an \<open>iovec\<close> is
  a base pointer and a length, and guest memory is mapped into the daemon. Memory is a
  store from addresses to bytes, so two iovecs can name the same bytes. Addresses and
  sizes are natural numbers: the sums the code forms are lengths of buffers that
  exist, and stay below \<open>2^64\<close>.
\<close>

type_synonym addr = nat
type_synonym byte = "8 word"
type_synonym mem = "addr \<Rightarrow> byte"

record iovec =
  iov_base :: addr
  iov_len :: nat

text \<open>
  Modelled from the spec: \<open>iov_size\<close> (QEMU's \<open>util/iov.c\<close>) is not part of the
  sources; the spec calls it the total length of an iovec array.
\<close>

definition iov_size :: "iovec list \<Rightarrow> nat" where
  "iov_size iov = sum_list (map iov_len iov)"

text \<open>
  The addresses an iovec array names, in the order in which a copy visits them, and
  the bytes found there.
\<close>

definition iov_addrs :: "iovec list \<Rightarrow> addr list" where
  "iov_addrs iov = concat (map (\<lambda>v. [iov_base v ..< iov_base v + iov_len v]) iov)"

definition iov_bytes :: "mem \<Rightarrow> iovec list \<Rightarrow> byte list" where
  "iov_bytes m iov = map m (iov_addrs iov)"

definition read_bytes :: "mem \<Rightarrow> addr \<Rightarrow> nat \<Rightarrow> byte list" where
  "read_bytes m a n = map m [a ..< a + n]"

definition write_bytes :: "mem \<Rightarrow> addr \<Rightarrow> byte list \<Rightarrow> mem" where
  "write_bytes m a bs = (\<lambda>x. if a \<le> x \<and> x < a + length bs then bs ! (x - a) else m x)"

text \<open>
  \<open>memcpy(dest, src, n)\<close> as a copy of \<open>n\<close> bytes in ascending order. C leaves the
  result undefined when the two areas overlap; there the model has the bytes a
  forward byte loop would leave.
\<close>

fun copy_bytes :: "mem \<Rightarrow> addr list \<Rightarrow> addr list \<Rightarrow> mem" where
  "copy_bytes m (d # ds) (s # ss) = copy_bytes (m(d := m s)) ds ss"
| "copy_bytes m _ _ = m"

definition memcpy :: "mem \<Rightarrow> addr \<Rightarrow> addr \<Rightarrow> nat \<Rightarrow> mem" where
  "memcpy m dest src n = copy_bytes m [dest ..< dest + n] [src ..< src + n]"

text \<open>
  \<open>copy_from_iov(buf, out_num, out_sg)\<close> copies the iovecs one after the other to
  \<open>buf->mem\<close>. The destination is the bounce buffer the worker allocates; the model
  keeps that buffer as the list of the bytes written to it so far, and the copy
  appends to it.
\<close>

fun copy_from_iov :: "mem \<Rightarrow> byte list \<Rightarrow> iovec list \<Rightarrow> byte list" where
  "copy_from_iov m dest [] = dest"
| "copy_from_iov m dest (v # out_sg) =
     copy_from_iov m (dest @ read_bytes m (iov_base v) (iov_len v)) out_sg"

text \<open>
  The inner loop of \<open>copy_iov\<close>, \<open>while (src_len)\<close>: it copies what is left of one
  source iovec \<open>s\<close> into the destination iovecs, \<open>d # ds\<close> being \<open>dst_iov\<close> with
  \<open>dst_count\<close> its length. \<open>None\<close> is a failed assertion: \<open>assert(dst_count)\<close> on an
  empty destination, and \<open>assert(dst_offset <= dst_iov[0].iov_len)\<close>, which can only
  fail when the loop is entered with \<open>dst_offset\<close> past the end of the iovec (the
  unsigned \<open>dst_len\<close> then wraps, the copy moves \<open>src_len\<close> bytes and the assertion
  after it fails). The loop returns the memory, the destination position and
  \<open>to_copy\<close>.
\<close>

function copy_iov_inner ::
  "mem \<Rightarrow> iovec \<Rightarrow> nat \<Rightarrow> nat \<Rightarrow> iovec list \<Rightarrow> nat \<Rightarrow> nat
     \<Rightarrow> (mem \<times> iovec list \<times> nat \<times> nat) option" where
  "copy_iov_inner m s src_offset src_len dst dst_offset to_copy =
     (if src_len = 0 then Some (m, dst, dst_offset, to_copy)
      else
        (case dst of
           [] \<Rightarrow> None
         | d # ds \<Rightarrow>
             if iov_len d < dst_offset then None
             else
               let dst_len = min (iov_len d - dst_offset) src_len;
                   m' = memcpy m (iov_base d + dst_offset) (iov_base s + src_offset) dst_len
               in if dst_offset + dst_len = iov_len d
                  then copy_iov_inner m' s (src_offset + dst_len) (src_len - dst_len)
                         ds 0 (to_copy - dst_len)
                  else copy_iov_inner m' s (src_offset + dst_len) (src_len - dst_len)
                         (d # ds) (dst_offset + dst_len) (to_copy - dst_len)))"
  by pat_completeness auto
termination
  by (relation "measure (\<lambda>(m, s, src_offset, src_len, dst, dst_offset, to_copy).
         src_len + length dst)") (auto simp: min_def split: if_splits)

declare copy_iov_inner.simps [simp del]

text \<open>
  The outer loop \<open>while (to_copy)\<close> over the source iovecs; \<open>assert(src_count)\<close>
  fails on an empty source.
\<close>

fun copy_iov_outer :: "mem \<Rightarrow> iovec list \<Rightarrow> iovec list \<Rightarrow> nat \<Rightarrow> nat \<Rightarrow> mem option" where
  "copy_iov_outer m [] dst dst_offset to_copy = (if to_copy = 0 then Some m else None)"
| "copy_iov_outer m (s # ss) dst dst_offset to_copy =
     (if to_copy = 0 then Some m
      else
        (case copy_iov_inner m s 0 (min (iov_len s) to_copy) dst dst_offset to_copy of
           None \<Rightarrow> None
         | Some (m', dst', dst_offset', to_copy') \<Rightarrow>
             copy_iov_outer m' ss dst' dst_offset' to_copy'))"

definition copy_iov :: "mem \<Rightarrow> iovec list \<Rightarrow> iovec list \<Rightarrow> nat \<Rightarrow> mem option" where
  "copy_iov m src_iov dst_iov to_copy = copy_iov_outer m src_iov dst_iov 0 to_copy"

text \<open>
  A position in a destination array as the loops of \<open>copy_iov\<close> keep it: the
  offset into the first iovec is 0, or lies inside that iovec.
\<close>

definition dst_pos_ok :: "iovec list \<Rightarrow> nat \<Rightarrow> bool" where
  "dst_pos_ok dst doff = (doff = 0 \<or> (dst \<noteq> [] \<and> doff < iov_len (hd dst)))"

section \<open>The daemon: queues, requests and the reply paths\<close>

text \<open>
  The layout of the FUSE headers, the opcodes and the buffer flag come from
  \<open>fuse_kernel.h\<close> and \<open>fuse_common.h\<close>, which are not part of the sources. They are
  parameters of the model: the sizes of the four structures, the two opcodes, the
  flag, and the accessors of the fields the code reads and writes
  (\<open>((struct fuse_in_header *)p)->opcode\<close>, \<open>out->unique\<close> and \<open>out->len = n\<close>), each
  working on the bytes of the header.
\<close>

record fuse_abi =
  sizeof_fuse_in_header :: nat
  sizeof_fuse_out_header :: nat
  sizeof_fuse_write_in :: nat
  sizeof_fuse_read_in :: nat
  FUSE_READ :: "32 word"
  FUSE_WRITE :: "32 word"
  FUSE_BUF_PHYS_ADDR :: nat
  in_header_opcode :: "byte list \<Rightarrow> 32 word"
  out_header_unique :: "byte list \<Rightarrow> 64 word"
  out_header_set_len :: "nat \<Rightarrow> byte list \<Rightarrow> byte list"

text \<open>
  The values of the FUSE protocol on a little-endian host, for the examples: headers
  of 40, 16, 40 and 40 bytes, \<open>opcode\<close> at offset 4 of \<open>fuse_in_header\<close>, \<open>len\<close> at
  offset 0 and \<open>unique\<close> at offset 8 of \<open>fuse_out_header\<close>.
\<close>

definition le_word :: "byte list \<Rightarrow> nat" where
  "le_word bs = foldr (\<lambda>b n. unat b + 256 * n) bs 0"

definition le_bytes :: "nat \<Rightarrow> nat \<Rightarrow> byte list" where
  "le_bytes k n = map (\<lambda>i. of_nat (n div 256 ^ i)) [0 ..< k]"

definition linux_fuse_abi :: fuse_abi where
  "linux_fuse_abi =
     \<lparr>sizeof_fuse_in_header = 40, sizeof_fuse_out_header = 16,
      sizeof_fuse_write_in = 40, sizeof_fuse_read_in = 40,
      FUSE_READ = 15, FUSE_WRITE = 16, FUSE_BUF_PHYS_ADDR = 16,
      in_header_opcode = (\<lambda>bs. of_nat (le_word (take 4 (drop 4 bs)))),
      out_header_unique = (\<lambda>bs. of_nat (le_word (take 8 (drop 8 bs)))),
      out_header_set_len = (\<lambda>n bs. le_bytes 4 n @ drop 4 bs)\<rparr>"

text \<open>
  A descriptor chain as \<open>vu_queue_pop\<close> returns it (\<open>VuVirtqElement\<close>: its index and
  the two iovec arrays, \<open>out_num\<close> and \<open>in_num\<close> being their lengths), and the
  request the queue thread makes of it (\<open>FVRequest\<close>; \<open>ch_qidx\<close> is
  \<open>req->ch.qi->qidx\<close>).
\<close>

record VuVirtqElement =
  elem_index :: nat
  out_sg :: "iovec list"
  in_sg :: "iovec list"

record FVRequest =
  elem :: VuVirtqElement
  ch_qidx :: nat
  bad_in_num :: nat
  bad_out_num :: nat
  reply_sent :: bool

text \<open>
  What the daemon does to its queues and locks is recorded as a list of events, in
  program order: taking and releasing the read side of \<open>vu_dispatch_rwlock\<close>, locking
  and unlocking the \<open>vq_lock\<close> of a queue, a pop, a push with its length, a notify,
  and the \<open>free\<close> of a popped request. The two calls by which the data reply
  fetches file data are recorded too, with their arguments: \<open>preadv(fd, iov, pos)\<close>
  and the IO request \<open>vu_fs_cache_request(dev, VHOST_USER_SLAVE_FS_IO, fd, msg)\<close> sent
  to the device.
\<close>

datatype event =
    RdLock | RwUnlock
  | MutexLock nat | MutexUnlock nat
  | Pop nat nat
  | Push nat nat nat
  | Notify nat
  | Free nat
  | Preadv int "iovec list" int
  | CacheRequestIO VhostUserFSSlaveMsg int

text \<open>
  The state the functions work on: memory, for every queue index the descriptor
  chains the guest has made available (each with the counts of unmappable entries
  that \<open>vu_queue_pop\<close> reports), the events so far, \<open>se->notify_enabled\<close> and
  \<open>se->bufsize\<close>.
\<close>

record fv_state =
  memory :: mem
  avail :: "nat \<Rightarrow> (VuVirtqElement \<times> nat \<times> nat) list"
  events :: "event list"
  notify_enabled :: bool
  bufsize :: nat

definition emit :: "event list \<Rightarrow> fv_state \<Rightarrow> fv_state" where
  "emit evs st = st\<lparr>events := events st @ evs\<rparr>"

text \<open>
  Modelled from the spec: \<open>vu_queue_pop\<close>, \<open>vu_queue_push\<close> and \<open>vu_queue_notify\<close>
  belong to libvhost-user, which is not part of the sources; the spec treats the
  library as the provider of pop, push and notify. A pop takes the first available
  chain of the queue, or returns nothing when there is none.
\<close>

definition vu_queue_pop ::
  "fv_state \<Rightarrow> nat \<Rightarrow> (VuVirtqElement \<times> nat \<times> nat) option \<times> fv_state" where
  "vu_queue_pop st q =
     (case avail st q of
        [] \<Rightarrow> (None, st)
      | x # xs \<Rightarrow> (Some x, emit [Pop q (elem_index (fst x))] (st\<lparr>avail := (avail st)(q := xs)\<rparr>)))"

definition vu_queue_push :: "fv_state \<Rightarrow> nat \<Rightarrow> VuVirtqElement \<Rightarrow> nat \<Rightarrow> fv_state" where
  "vu_queue_push st q e len = emit [Push q (elem_index e) len] st"

definition vu_queue_notify :: "fv_state \<Rightarrow> nat \<Rightarrow> fv_state" where
  "vu_queue_notify st q = emit [Notify q] st"

text \<open>
  The locked push that the three senders and the worker each write out: read lock,
  queue mutex, push, notify, and the two unlocks.
\<close>

definition locked_push :: "fv_state \<Rightarrow> nat \<Rightarrow> VuVirtqElement \<Rightarrow> nat \<Rightarrow> fv_state" where
  "locked_push st q e len =
     emit [MutexUnlock q, RwUnlock]
       (vu_queue_notify (vu_queue_push (emit [RdLock, MutexLock q] st) q e len) q)"

subsection \<open>Notifications\<close>

text \<open>
  \<open>virtio_send_notify_msg\<close>. The notification queue is queue 1. When the pop returns
  nothing the function returns \<open>-ENOSPC\<close> before the unlocks; on the two \<open>E2BIG\<close>
  paths it jumps to \<open>out:\<close>, which frees the popped request.
\<close>

definition virtio_send_notify_msg ::
  "fuse_abi \<Rightarrow> fv_state \<Rightarrow> iovec list \<Rightarrow> fatal + c_int \<times> fv_state" where
  "virtio_send_notify_msg abi st iov =
     (case iov of
        [] \<Rightarrow> Inl OutOfBounds
      | v # _ \<Rightarrow>
          let hdr = read_bytes (memory st) (iov_base v) (sizeof_fuse_out_header abi);
              tosend_len = iov_size iov
          in
          if out_header_unique abi hdr \<noteq> 0 then Inl AssertFailed
          else if \<not> notify_enabled st then Inr (- EOPNOTSUPP, st)
          else
            (case vu_queue_pop (emit [RdLock, MutexLock 1] st) 1 of
               (None, st1) \<Rightarrow> Inr (- ENOSPC, st1)
             | (Some (e, bad_in, bad_out), st1) \<Rightarrow>
                 let st2 = emit [MutexUnlock 1, RwUnlock] st1;
                     st3 = st2\<lparr>memory := write_bytes (memory st2) (iov_base v)
                                             (out_header_set_len abi tosend_len hdr)\<rparr>;
                     in_len = iov_size (in_sg e)
                 in
                 if in_len < sizeof_fuse_out_header abi
                   then Inr (- E2BIG, emit [Free (elem_index e)] st3)
                 else if in_len < tosend_len
                   then Inr (- E2BIG, emit [Free (elem_index e)] st3)
                 else
                   (case copy_iov (memory st3) iov (in_sg e) tosend_len of
                      None \<Rightarrow> Inl AssertFailed
                    | Some m' \<Rightarrow>
                        Inr (0, emit [Free (elem_index e)]
                                  (locked_push (st3\<lparr>memory := m'\<rparr>) 1 e tosend_len)))))"

subsection \<open>The plain reply\<close>

text \<open>
  \<open>virtio_send_msg\<close>. \<open>ch\<close> is an option (the null pointer is \<open>None\<close>); the request
  is the one that contains the channel (\<open>container_of(ch, FVRequest, ch)\<close>) and is
  returned with the state, since \<open>req->reply_sent = true\<close> writes into it.
\<close>

definition virtio_send_msg ::
  "fuse_abi \<Rightarrow> fv_state \<Rightarrow> FVRequest option \<Rightarrow> iovec list
     \<Rightarrow> fatal + c_int \<times> fv_state \<times> FVRequest option" where
  "virtio_send_msg abi st ch iov =
     (case iov of
        [] \<Rightarrow> Inl AssertFailed
      | v # _ \<Rightarrow>
          if iov_len v < sizeof_fuse_out_header abi then Inl AssertFailed
          else
            let tosend_len = iov_size iov in
            if out_header_unique abi
                 (read_bytes (memory st) (iov_base v) (sizeof_fuse_out_header abi)) = 0
            then
              (case virtio_send_notify_msg abi st iov of
                 Inl f \<Rightarrow> Inl f
               | Inr (ret, st') \<Rightarrow> Inr (ret, st', ch))
            else
              (case ch of
                 None \<Rightarrow> Inl AssertFailed
               | Some req \<Rightarrow>
                   if reply_sent req then Inl AssertFailed
                   else
                     let in_len = iov_size (in_sg (elem req)) in
                     if in_len < sizeof_fuse_out_header abi then Inr (- E2BIG, st, ch)
                     else if in_len < tosend_len then Inr (- E2BIG, st, ch)
                     else
                       (case copy_iov (memory st) iov (in_sg (elem req)) tosend_len of
                          None \<Rightarrow> Inl AssertFailed
                        | Some m' \<Rightarrow>
                            Inr (0,
                                 locked_push (st\<lparr>memory := m'\<rparr>) (ch_qidx req) (elem req)
                                   tosend_len,
                                 Some (req\<lparr>reply_sent := True\<rparr>)))))"

subsection \<open>The reply with data from a file\<close>

text \<open>
  \<open>virtio_send_data_iov\<close> gets the file data from two calls whose results the
  program does not decide. \<open>preadv\<close> is a system call: from the events so far, the
  memory and its arguments it gives the value stored in \<open>int ret\<close>, the value of
  \<open>errno\<close>, and the memory with the bytes it has read into the iovecs.
  \<open>vu_fs_cache_request\<close> belongs to libvhost-user: it sends the message to the
  device and returns the device's 64-bit answer, for an IO request the value
  \<open>vhost_user_fs_slave_io\<close> returns. Both are parameters of the model.
\<close>

record daemon_env =
  preadv :: "event list \<Rightarrow> mem \<Rightarrow> int \<Rightarrow> iovec list \<Rightarrow> int \<Rightarrow> c_int \<times> c_int \<times> mem"
  vu_fs_cache_request :: "event list \<Rightarrow> VhostUserFSSlaveMsg \<Rightarrow> int \<Rightarrow> u64"

text \<open>
  \<open>fuse_virtio_io\<close>, called with a session that has its device
  (\<open>se->virtio_dev\<close> is not null while a queue of the device delivers requests, so
  the \<open>-ENODEV\<close> return is not taken).
\<close>

definition fuse_virtio_io ::
  "daemon_env \<Rightarrow> fv_state \<Rightarrow> VhostUserFSSlaveMsg \<Rightarrow> int \<Rightarrow> u64 \<times> fv_state" where
  "fuse_virtio_io env st msg fd =
     (vu_fs_cache_request env (events st) msg fd, emit [CacheRequestIO msg fd] st)"

text \<open>
  The loop \<open>while (skip_size != 0 && in_sg_cpy_count)\<close> that moves \<open>in_sg_ptr\<close>
  past \<open>skip_size\<close> bytes. \<open>in_sg_ptr\<close> is kept as the list of the entries of
  \<open>in_sg_cpy\<close> from the pointer to the end of the array, of which the first
  \<open>in_sg_cpy_count\<close> are the writable ones. The result is \<open>skip_size\<close>, the pointer
  and the count as the loop leaves them; when it stops inside an iovec, \<open>skip_size\<close>
  keeps its value.
\<close>

fun skip_iov :: "nat \<Rightarrow> iovec list \<Rightarrow> nat \<Rightarrow> nat \<times> iovec list \<times> nat" where
  "skip_iov skip_size [] in_sg_cpy_count = (skip_size, [], in_sg_cpy_count)"
| "skip_iov skip_size (v # vs) in_sg_cpy_count =
     (if skip_size \<noteq> 0 \<and> in_sg_cpy_count \<noteq> 0 then
        (if iov_len v \<le> skip_size
         then skip_iov (skip_size - iov_len v) vs (in_sg_cpy_count - 1)
         else (skip_size,
               v\<lparr>iov_len := iov_len v - skip_size, iov_base := iov_base v + skip_size\<rparr> # vs,
               in_sg_cpy_count))
      else (skip_size, v # vs, in_sg_cpy_count))"

text \<open>
  One pass through the body of the \<open>do ... while (in_sg_left)\<close> loop: the skip, the
  sum \<open>in_sg_left\<close> of the writable iovecs that remain, the \<open>preadv\<close> into them and
  the four tests of its result. \<open>ret\<close> is an \<open>int\<close>; in \<open>ret < len\<close>,
  \<open>ret != len\<close>, \<open>skip_size = ret\<close>, \<open>len -= ret\<close> and \<open>in_sg_left -= ret\<close> it is
  converted to \<open>size_t\<close>, which is its sign extension to 64 bits. \<open>Inl\<close> is a jump
  to \<open>err:\<close> with the value of \<open>ret\<close>; \<open>Break\<close> leaves the loop, either by
  \<open>break\<close> or because the loop condition \<open>in_sg_left\<close> is 0; \<open>Continue\<close> starts
  the next pass. The loop state is \<open>skip_size\<close>, \<open>in_sg_ptr\<close>, \<open>in_sg_cpy_count\<close>,
  \<open>buf->buf[0].pos\<close> and \<open>len\<close>.
\<close>

definition preadv_body ::
  "daemon_env \<Rightarrow> int \<Rightarrow> fv_state \<Rightarrow> nat \<Rightarrow> iovec list \<Rightarrow> nat \<Rightarrow> int \<Rightarrow> nat
     \<Rightarrow> (c_int \<times> fv_state) + (fv_state \<times> nat \<times> iovec list \<times> nat \<times> int \<times> nat) loop_step" where
  "preadv_body env fd st skip_size in_sg_ptr in_sg_cpy_count pos len =
     (case skip_iov skip_size in_sg_ptr in_sg_cpy_count of
        (skip_size1, in_sg_ptr1, in_sg_cpy_count1) \<Rightarrow>
          let vec = take in_sg_cpy_count1 in_sg_ptr1;
              in_sg_left = iov_size vec
          in
          (case preadv env (events st) (memory st) fd vec pos of
             (ret, errno, m1) \<Rightarrow>
               let st1 = emit [Preadv fd vec pos] (st\<lparr>memory := m1\<rparr>);
                   uret = unat (scast ret :: u64)
               in
               if ret = - 1 then Inl (errno, st1)
               else if uret < len \<and> ret \<noteq> 0 then
                 (if in_sg_left \<noteq> 0
                  then Inr (Continue (st1, uret, in_sg_ptr1, in_sg_cpy_count1,
                                      pos + sint ret, len - uret))
                  else Inr (Break (st1, uret, in_sg_ptr1, in_sg_cpy_count1,
                                   pos + sint ret, len - uret)))
               else if ret = 0 then
                 Inr (Break (st1, skip_size1, in_sg_ptr1, in_sg_cpy_count1, pos, len))
               else if uret \<noteq> len then Inl (EIO, st1)
               else if (in_sg_left + 2 ^ 64 - uret) mod 2 ^ 64 \<noteq> 0
                 then Inr (Continue (st1, skip_size1, in_sg_ptr1, in_sg_cpy_count1,
                                     pos, len - uret))
                 else Inr (Break (st1, skip_size1, in_sg_ptr1, in_sg_cpy_count1,
                                  pos, len - uret))))"

text \<open>
  The loop. Every pass that is followed by another one makes \<open>len\<close> smaller: a short
  read takes \<open>ret\<close> bytes off it, with \<open>0 < ret < len\<close>, and a read of exactly
  \<open>len\<close> bytes leaves 0. It returns the jump to \<open>err:\<close>, or the state, the pointer,
  the file position and \<open>len\<close> at the exit of the loop.
\<close>

lemma unat_scast_nonzero: "ret \<noteq> 0 \<Longrightarrow> unat (scast (ret :: c_int) :: u64) \<noteq> 0"
proof
  assume nz: "ret \<noteq> 0" and "unat (scast ret :: u64) = 0"
  then have "(scast ret :: u64) = 0" by (simp add: unat_eq_0)
  then have "sint (scast ret :: u64) = 0" by simp
  then have "sint ret = 0" by (simp add: sint_up_scast is_up)
  with nz show False by (simp add: signed_eq_0_iff)
qed

function preadv_loop ::
  "daemon_env \<Rightarrow> int \<Rightarrow> fv_state \<Rightarrow> nat \<Rightarrow> iovec list \<Rightarrow> nat \<Rightarrow> int \<Rightarrow> nat
     \<Rightarrow> (c_int \<times> fv_state) + (fv_state \<times> iovec list \<times> int \<times> nat)" where
  "preadv_loop env fd st skip_size in_sg_ptr in_sg_cpy_count pos len =
     (case preadv_body env fd st skip_size in_sg_ptr in_sg_cpy_count pos len of
        Inl e \<Rightarrow> Inl e
      | Inr (Break (st1, skip_size1, in_sg_ptr1, in_sg_cpy_count1, pos1, len1)) \<Rightarrow>
          Inr (st1, in_sg_ptr1, pos1, len1)
      | Inr (Continue (st1, skip_size1, in_sg_ptr1, in_sg_cpy_count1, pos1, len1)) \<Rightarrow>
          preadv_loop env fd st1 skip_size1 in_sg_ptr1 in_sg_cpy_count1 pos1 len1)"
  by pat_completeness auto

termination
  by (relation "measure (\<lambda>(env, fd, st, skip_size, in_sg_ptr, in_sg_cpy_count, pos, len). len)")
    (auto simp: preadv_body_def Let_def dest: unat_scast_nonzero
          split: prod.splits if_splits)

declare preadv_loop.simps [simp del]

text \<open>
  The loop \<open>while (len && bad_in_num)\<close> over the unmappable iovecs, by recursion on
  the local \<open>bad_in_num\<close>. Each pass asks the device to read from the file at
  \<open>buf->buf[0].pos\<close> into the iovec \<open>in_sg_ptr[0]\<close>, at most \<open>len\<close> bytes
  (\<open>msg.len[0]\<close>); of the message only entry 0 is set, the others are 0 and are
  left out. A positive answer takes \<open>msg.len[0]\<close> off \<open>len\<close> and moves to the next
  iovec, the answer 0 leaves the loop, a negative one jumps to \<open>err:\<close> with
  \<open>ret = req_res\<close>, the 64-bit answer cut to an \<open>int\<close>.
\<close>

fun bad_in_loop ::
  "daemon_env \<Rightarrow> int \<Rightarrow> fv_state \<Rightarrow> iovec list \<Rightarrow> int \<Rightarrow> nat \<Rightarrow> nat
     \<Rightarrow> fatal + ((c_int \<times> fv_state) + (fv_state \<times> int \<times> nat))" where
  "bad_in_loop env fd st in_sg_ptr pos len 0 = Inr (Inr (st, pos, len))"
| "bad_in_loop env fd st in_sg_ptr pos len (Suc bad) =
     (if len = 0 then Inr (Inr (st, pos, len))
      else
        (case in_sg_ptr of
           [] \<Rightarrow> Inl OutOfBounds
         | v # vs \<Rightarrow>
             let msg_len = (if len < iov_len v then len else iov_len v);
                 msg = [\<lparr>sm_flags = VHOST_USER_FS_FLAG_MAP_R, sm_fd_offset = of_int pos,
                         sm_c_offset = of_nat (iov_base v), sm_len = of_nat msg_len\<rparr>]
             in
             (case fuse_virtio_io env st msg fd of
                (req_res, st1) \<Rightarrow>
                  if 0 <s req_res
                    then bad_in_loop env fd st1 vs (pos + int msg_len) (len - msg_len) bad
                  else if req_res = 0 then Inr (Inr (st1, pos, len))
                  else Inr (Inl (ucast req_res, st1)))))"

text \<open>
  The label \<open>err:\<close>: \<open>reply_sent\<close> is set when \<open>ret\<close> is 0, and \<open>ret\<close> is
  returned.
\<close>

definition data_iov_err ::
  "c_int \<Rightarrow> fv_state \<Rightarrow> FVRequest \<Rightarrow> fatal + c_int \<times> fv_state \<times> FVRequest option" where
  "data_iov_err ret st req =
     Inr (ret, st, Some (if ret = 0 then req\<lparr>reply_sent := True\<rparr> else req))"

text \<open>
  \<open>virtio_send_data_iov\<close>. \<open>fd\<close> and \<open>pos\<close> are \<open>buf->buf[0].fd\<close> and
  \<open>buf->buf[0].pos\<close>. The function reads \<open>ch->qi\<close> first, then makes its
  assertions; \<open>out->len = tosend_len\<close> is written into the header of the reply
  before \<open>out->unique\<close> is tested. As in the worker, \<open>in_num - bad_in_num\<close> is
  unsigned and wraps when there are more bad entries than entries. After the two
  loops a \<open>len\<close> that is not 0 shortens the reply: \<open>tosend_len -= len\<close>, written
  into the header at \<open>in_sg[0].iov_base\<close>. \<open>tosend_len\<close> is the length pushed.
\<close>

definition virtio_send_data_iov ::
  "fuse_abi \<Rightarrow> daemon_env \<Rightarrow> fv_state \<Rightarrow> FVRequest option \<Rightarrow> iovec list \<Rightarrow> int \<Rightarrow> int \<Rightarrow> nat
     \<Rightarrow> fatal + c_int \<times> fv_state \<times> FVRequest option" where
  "virtio_send_data_iov abi env st ch iov fd pos len =
     (case ch of
        None \<Rightarrow> Inl NullDeref
      | Some req \<Rightarrow>
          (case iov of
             [] \<Rightarrow> Inl AssertFailed
           | v # _ \<Rightarrow>
               if iov_len v < sizeof_fuse_out_header abi then Inl AssertFailed
               else
                 let iov_len_total = iov_size iov;
                     tosend_len = iov_len_total + len;
                     st1 = st\<lparr>memory := write_bytes (memory st) (iov_base v)
                             (out_header_set_len abi tosend_len
                                (read_bytes (memory st) (iov_base v)
                                   (sizeof_fuse_out_header abi)))\<rparr>;
                     sink = in_sg (elem req);
                     in_num = length sink
                 in
                 if out_header_unique abi
                      (read_bytes (memory st1) (iov_base v) (sizeof_fuse_out_header abi)) = 0
                   then Inl AssertFailed
                 else if reply_sent req then Inl AssertFailed
                 else if in_num < bad_in_num req then Inl OutOfBounds
                 else if iov_size (take (in_num - bad_in_num req) sink)
                           < sizeof_fuse_out_header abi
                   then data_iov_err (- E2BIG) st1 req
                 else if iov_size sink < tosend_len then data_iov_err (- E2BIG) st1 req
                 else
                   (case copy_iov (memory st1) iov sink iov_len_total of
                      None \<Rightarrow> Inl AssertFailed
                    | Some m2 \<Rightarrow>
                        (case preadv_loop env fd (st1\<lparr>memory := m2\<rparr>) iov_len_total sink
                                (in_num - bad_in_num req) pos len of
                           Inl (ret, st3) \<Rightarrow> data_iov_err ret st3 req
                         | Inr (st3, in_sg_ptr, pos3, len3) \<Rightarrow>
                             (case bad_in_loop env fd st3 in_sg_ptr pos3 len3 (bad_in_num req) of
                                Inl f \<Rightarrow> Inl f
                              | Inr (Inl (ret, st4)) \<Rightarrow> data_iov_err ret st4 req
                              | Inr (Inr (st4, pos4, len4)) \<Rightarrow>
                                  if len4 = 0 then
                                    Inr (0, locked_push st4 (ch_qidx req) (elem req) tosend_len,
                                         Some (req\<lparr>reply_sent := True\<rparr>))
                                  else
                                    (case sink of
                                       [] \<Rightarrow> Inl OutOfBounds
                                     | s0 # _ \<Rightarrow>
                                         let st5 = st4\<lparr>memory :=
                                               write_bytes (memory st4) (iov_base s0)
                                                 (out_header_set_len abi (tosend_len - len4)
                                                    (read_bytes (memory st4) (iov_base s0)
                                                       (sizeof_fuse_out_header abi)))\<rparr>
                                         in
                                         Inr (0,
                                              locked_push st5 (ch_qidx req) (elem req)
                                                (tosend_len - len4),
                                              Some (req\<lparr>reply_sent := True\<rparr>))))))))"

subsection \<open>The queue worker\<close>

text \<open>
  A \<open>fuse_buf\<close> of the buffer vector handed to the session: its size, its flags, its
  position (\<open>~0\<close> is \<open>-1\<close>) and its memory, which is either the bounce buffer with
  the bytes copied into it or a pointer into guest memory.
\<close>

datatype buf_mem = Bounce "byte list" | InPlace addr

record fuse_buf =
  buf_size :: nat
  buf_flags :: nat
  buf_pos :: int
  buf_mem :: buf_mem

text \<open>
  The entries the two write paths add for the iovecs behind the two headers
  (\<open>for (; iovindex < out_num; iovindex++, pbufvindex++)\<close>): each points at the
  guest memory of its iovec. In the unmappable path an entry at or past
  \<open>out_num_readable\<close> is flagged \<open>FUSE_BUF_PHYS_ADDR\<close>.
\<close>

fun in_place_bufs :: "fuse_abi \<Rightarrow> nat \<Rightarrow> nat \<Rightarrow> iovec list \<Rightarrow> fuse_buf list" where
  "in_place_bufs abi out_num_readable iovindex [] = []"
| "in_place_bufs abi out_num_readable iovindex (v # vs) =
     \<lparr>buf_size = iov_len v,
      buf_flags = (if iovindex < out_num_readable then 0 else FUSE_BUF_PHYS_ADDR abi),
      buf_pos = - 1,
      buf_mem = InPlace (iov_base v)\<rparr>
     # in_place_bufs abi out_num_readable (Suc iovindex) vs"

text \<open>
  The first part of \<open>fv_queue_worker\<close>, up to the call of the session: the checks
  and the construction of the buffer vector \<open>pbufv\<close>. The two \<open>assert(0)\<close> are kept
  apart as \<open>ElemTooShort\<close> and \<open>ElemTooLarge\<close>. \<open>out_num - req->bad_out_num\<close> is
  unsigned: with more bad entries than entries it wraps and \<open>iov_size\<close> reads past
  the array.
\<close>

definition fv_queue_worker_bufv ::
  "fuse_abi \<Rightarrow> nat \<Rightarrow> mem \<Rightarrow> FVRequest \<Rightarrow> fatal + fuse_buf list" where
  "fv_queue_worker_bufv abi se_bufsize m req =
     (let sg = out_sg (elem req);
          out_num = length sg;
          out_num_readable = out_num - bad_out_num req;
          out_len = iov_size sg;
          out_len_readable = iov_size (take out_num_readable sg)
      in
      if \<not> sizeof_fuse_in_header abi < se_bufsize then Inl AssertFailed
      else if out_num < bad_out_num req then Inl OutOfBounds
      else if out_len_readable < sizeof_fuse_in_header abi then Inl ElemTooShort
      else if se_bufsize < out_len then Inl ElemTooLarge
      else
        (case sg of
           [] \<Rightarrow> Inl OutOfBounds
         | v0 # rest \<Rightarrow>
             let hdr = copy_from_iov m [] [v0];
                 is_write =
                   (2 < out_num \<and> iov_len v0 = sizeof_fuse_in_header abi
                    \<and> in_header_opcode abi hdr = FUSE_WRITE abi
                    \<and> iov_len (sg ! 1) = sizeof_fuse_write_in abi);
                 is_read =
                   (out_num = 2 \<and> iov_len v0 = sizeof_fuse_in_header abi
                    \<and> in_header_opcode abi hdr = FUSE_READ abi
                    \<and> iov_len (sg ! 1) = sizeof_fuse_read_in abi);
                 write_bufv = (\<lambda>readable.
                   \<lparr>buf_size = iov_len v0 + iov_len (sg ! 1), buf_flags = 0, buf_pos = 0,
                    buf_mem = Bounce (copy_from_iov m hdr [sg ! 1])\<rparr>
                   # in_place_bufs abi readable 2 (drop 2 sg));
                 unmappable_write =
                   (is_write \<and> 2 \<le> out_num_readable \<and> bad_in_num req = 0);
                 unmappable_read =
                   (is_read \<and> out_num_readable = 2 \<and> bad_in_num req \<noteq> 0)
             in
             if \<not> (bad_in_num req = 0 \<and> bad_out_num req = 0)
                \<and> \<not> unmappable_write \<and> \<not> unmappable_read
               then Inl Panic
             else if bad_out_num req \<noteq> 0 then Inr (write_bufv out_num_readable)
             else if is_write then Inr (write_bufv out_num)
             else
               Inr [\<lparr>buf_size = out_len, buf_flags = 0, buf_pos = 0,
                     buf_mem = Bounce (copy_from_iov m hdr rest)\<rparr>]))"

text \<open>
  \<open>fv_queue_worker\<close>. The session (\<open>fuse_session_process_buf_int\<close>) is a parameter:
  it gets the buffer vector, the state and the request, may call the reply paths, and
  returns the state and the request as it leaves them. After it, a request whose
  reply was not sent is pushed with length 0; then the request is freed.
\<close>

type_synonym session =
  "fuse_buf list \<Rightarrow> fv_state \<Rightarrow> FVRequest \<Rightarrow> fatal + fv_state \<times> FVRequest"

definition fv_queue_worker ::
  "fuse_abi \<Rightarrow> session \<Rightarrow> nat \<Rightarrow> fv_state \<Rightarrow> FVRequest \<Rightarrow> fatal + fv_state" where
  "fv_queue_worker abi process qidx st req =
     (case fv_queue_worker_bufv abi (bufsize st) (memory st) req of
        Inl f \<Rightarrow> Inl f
      | Inr pbufv \<Rightarrow>
          (case process pbufv st (req\<lparr>ch_qidx := qidx\<rparr>) of
             Inl f \<Rightarrow> Inl f
           | Inr (st', req') \<Rightarrow>
               Inr (emit [Free (elem_index (elem req'))]
                      (if \<not> reply_sent req'
                       then locked_push st' qidx (elem req') 0
                       else st'))))"

section \<open>Example inputs\<close>

text \<open>
  Inputs for the examples below. The memory holds a \<open>fuse_in_header\<close> at address
  0 whose opcode is \<open>FUSE_WRITE\<close>, and a \<open>fuse_out_header\<close> at address 256 whose
  \<open>unique\<close> is 7. The first request is a fully mappable write of two data iovecs;
  the second is a write whose data iovec of 2 MiB is unmappable; the reply is a
  header of 16 bytes followed by 8 bytes of payload. \<open>se->bufsize\<close> is 1 MiB plus
  one page.
\<close>

definition example_mem :: mem where
  "example_mem = (\<lambda>a. if a = 4 then 16 else if a = 264 then 7 else 0)"

definition example_write_req :: FVRequest where
  "example_write_req =
     \<lparr>elem = \<lparr>elem_index = 3,
              out_sg = [\<lparr>iov_base = 0, iov_len = 40\<rparr>, \<lparr>iov_base = 64, iov_len = 40\<rparr>,
                        \<lparr>iov_base = 4096, iov_len = 100\<rparr>, \<lparr>iov_base = 8192, iov_len = 50\<rparr>],
              in_sg = [\<lparr>iov_base = 12288, iov_len = 10\<rparr>, \<lparr>iov_base = 16384, iov_len = 30\<rparr>]\<rparr>,
      ch_qidx = 1, bad_in_num = 0, bad_out_num = 0, reply_sent = False\<rparr>"

definition example_unmappable_req :: FVRequest where
  "example_unmappable_req =
     \<lparr>elem = \<lparr>elem_index = 4,
              out_sg = [\<lparr>iov_base = 0, iov_len = 40\<rparr>, \<lparr>iov_base = 64, iov_len = 40\<rparr>,
                        \<lparr>iov_base = 1048576, iov_len = 2097152\<rparr>],
              in_sg = [\<lparr>iov_base = 12288, iov_len = 16\<rparr>]\<rparr>,
      ch_qidx = 1, bad_in_num = 0, bad_out_num = 1, reply_sent = False\<rparr>"

definition example_reply :: "iovec list" where
  "example_reply = [\<lparr>iov_base = 256, iov_len = 16\<rparr>, \<lparr>iov_base = 512, iov_len = 8\<rparr>]"

definition example_state :: fv_state where
  "example_state =
     \<lparr>memory = example_mem, avail = (\<lambda>q. []), events = [],
      notify_enabled = False, bufsize = 1052672\<rparr>"

text \<open>
  Inputs for an unmappable read on request queue 2. The memory holds a
  \<open>fuse_in_header\<close> at address 0 whose opcode is \<open>FUSE_READ\<close> and the reply's
  \<open>fuse_out_header\<close> at address 256, whose \<open>unique\<close> is 7. The request is chain 9:
  two readable header iovecs, and a sink of one writable iovec of 16 bytes followed
  by one unmappable iovec of 2048 bytes at guest address 1048576. The host is a
  file with 100 bytes left at the position asked for: \<open>preadv\<close>, which gets no
  iovec because the header fills the writable one, returns 0, and the device
  answers an IO request with 100, the bytes it has transferred. The session answers
  the read with one call of \<open>virtio_send_data_iov\<close>: the 16-byte header and 2048
  bytes of descriptor 5 from position 0.
\<close>

definition example_read_mem :: mem where
  "example_read_mem = (\<lambda>a. if a = 4 then 15 else if a = 264 then 7 else 0)"

definition example_read_req :: FVRequest where
  "example_read_req =
     \<lparr>elem = \<lparr>elem_index = 9,
              out_sg = [\<lparr>iov_base = 0, iov_len = 40\<rparr>, \<lparr>iov_base = 64, iov_len = 40\<rparr>],
              in_sg = [\<lparr>iov_base = 12288, iov_len = 16\<rparr>,
                       \<lparr>iov_base = 1048576, iov_len = 2048\<rparr>]\<rparr>,
      ch_qidx = 2, bad_in_num = 1, bad_out_num = 0, reply_sent = False\<rparr>"

definition example_read_state :: fv_state where
  "example_read_state =
     \<lparr>memory = example_read_mem, avail = (\<lambda>q. []), events = [],
      notify_enabled = True, bufsize = 1052672\<rparr>"

definition example_short_file :: daemon_env where
  "example_short_file =
     \<lparr>preadv = (\<lambda>evs m fd vec pos. (0, 0, m)),
      vu_fs_cache_request = (\<lambda>evs msg fd. 100)\<rparr>"

definition example_read_session :: session where
  "example_read_session pbufv st req =
     (case virtio_send_data_iov linux_fuse_abi example_short_file st (Some req)
             [\<lparr>iov_base = 256, iov_len = 16\<rparr>] 5 0 2048 of
        Inl f \<Rightarrow> Inl f
      | Inr (ret, st1, ch1) \<Rightarrow> Inr (st1, case ch1 of None \<Rightarrow> req | Some req1 \<Rightarrow> req1))"

section \<open>Properties of the DAX cache controller\<close>

subsection \<open>Helper lemmas\<close>

lemma sint_neg_errno:
  assumes "0 <s (e :: c_int)"
  shows "sint (- e) = - sint e"
proof -
  have pos: "0 < sint e"
    using assms by (simp add: word_sless_alt)
  have ub: "sint e < 2 ^ 31"
    using sint_lt [of e] by simp
  have "sint (- e) = signed_take_bit 31 (- sint e)"
    by (simp add: sint_word_ariths)
  also have "\<dots> = - sint e"
    using pos ub by (intro signed_take_bit_int_eq_self) simp_all
  finally show ?thesis .
qed

lemma neg_errno_negative:
  assumes "0 <s (e :: c_int)"
  shows "(scast (- e) :: u64) <s 0"
proof -
  have "sint (scast (- e) :: u64) = sint (- e)"
    by (simp add: sint_up_scast is_up)
  with sint_neg_errno [OF assms] assms show ?thesis
    by (simp add: word_sless_alt)
qed

lemma neg_errno_nonzero: "0 <s (e :: c_int) \<Longrightarrow> - e \<noteq> 0"
  by (auto simp: word_sless_alt)

lemma posix_map_call:
  "posix_errno K \<Longrightarrow> fst (K w (map_call fs fd e)) \<noteq> cache_host fs + sm_c_offset e
     \<Longrightarrow> 0 <s snd (K w (map_call fs fd e))"
  unfolding posix_errno_def map_call_def
  by (metis sys_failed.simps(1))

lemma unmap_loop_msg:
  "fst (snd (unmap_loop K fs sm res w)) =
     map (\<lambda>e. if sm_len e = - 1 then e\<lparr>sm_len := cache_size fs\<rparr> else e) sm"
  by (induction sm arbitrary: res w) (simp_all add: Let_def case_prod_beta)

text \<open>
  Entries that were applied without a failure can be split off the front of the
  message: the loop goes on behind them in the world they left.
\<close>

lemma map_loop_append:
  "posix_errno K \<Longrightarrow> map_loop K fs fd pre w = (0, w1)
     \<Longrightarrow> map_loop K fs fd (pre @ rest) w = map_loop K fs fd rest w1"
proof (induction pre arbitrary: w)
  case Nil
  then show ?case by simp
next
  case (Cons e es)
  show ?case
  proof (cases "sm_len e = 0")
    case True
    with Cons show ?thesis by simp
  next
    case False
    note nz = this
    show ?thesis
    proof (cases "bad_offset_len fs e")
      case True
      with nz Cons.prems show ?thesis by simp
    next
      case False
      note inb = this
      show ?thesis
      proof (cases "fst (K w (map_call fs fd e)) \<noteq> cache_host fs + sm_c_offset e")
        case True
        then have "- snd (K w (map_call fs fd e)) \<noteq> 0"
          using posix_map_call [OF Cons.prems(1)] neg_errno_nonzero by blast
        with True nz inb Cons.prems(2) show ?thesis by simp
      next
        case False
        with nz inb Cons show ?thesis by simp
      qed
    qed
  qed
qed

lemma map_loop_skips_empty:
  "map_loop K fs fd (filter (\<lambda>e. sm_len e \<noteq> 0) sm) w = map_loop K fs fd sm w"
  by (induction sm arbitrary: w) simp_all

text \<open>With the cache disabled every non-empty entry is out of bounds.\<close>

lemma bad_when_disabled:
  "cache_size fs = 0 \<Longrightarrow> sm_len e \<noteq> 0 \<Longrightarrow> bad_offset_len fs e"
  unfolding bad_offset_len_def
  by (metis word_gt_0 word_neq_0_conv)

lemma map_loop_disabled:
  "cache_size fs = 0 \<Longrightarrow> map_loop K fs fd pre w = (0, w1) \<Longrightarrow> w1 = w"
  by (induction pre arbitrary: w) (auto simp: bad_when_disabled split: if_splits)

subsection \<open>C2: a failing entry stops MAP and rolls the message back\<close>

text \<open>
  C2. Let the descriptor be valid, so that MAP gets to the entries of the message.
  Let the entries \<open>pre\<close> be applied without a failure, leaving the world \<open>w1\<close>,
  and let the next entry \<open>e\<close> be non-empty and fail: its interval wraps around or
  ends past \<open>cache_size\<close>, or its \<open>mmap\<close> does not return the address asked for.
  Then MAP makes no call for \<open>e\<close> when \<open>e\<close> is out of bounds and none for any entry
  behind \<open>e\<close>; the message and the world it returns are those of
  \<open>vhost_user_fs_slave_unmap\<close> run over the same, whole message from the world in
  which the failure happened; and the result is \<open>-1\<close> for a bounds failure and
  \<open>-errno\<close> for a failed \<open>mmap\<close>, in both cases negative as a signed 64-bit value.
  (With the cache disabled MAP returns \<open>-1\<close> before its loop; every non-empty entry
  is out of bounds then, nothing was applied, and UNMAP over the message changes
  nothing.) Entries with \<open>len = 0\<close> are skipped: removing them from a message changes
  nothing.
\<close>

theorem map_failure_rolls_back:
  assumes "posix_errno K" and "0 \<le> fd"
    and "map_loop K fs fd pre w = (0, w1)"
    and "sm_len e \<noteq> 0"
    and "bad_offset_len fs e \<or> fst (K w1 (map_call fs fd e)) \<noteq> cache_host fs + sm_c_offset e"
  shows "vhost_user_fs_slave_map K (Some fs) (pre @ e # post) fd w =
           (if bad_offset_len fs e
            then (- 1, snd (vhost_user_fs_slave_unmap K (Some fs) (pre @ e # post) w1))
            else (scast (- snd (K w1 (map_call fs fd e))),
                  snd (vhost_user_fs_slave_unmap K (Some fs) (pre @ e # post)
                         (w1 @ [map_call fs fd e]))))
         \<and> fst (vhost_user_fs_slave_map K (Some fs) (pre @ e # post) fd w) <s 0
         \<and> map_loop K fs fd (filter (\<lambda>x. sm_len x \<noteq> 0) sm') w' = map_loop K fs fd sm' w'"
proof (cases "cache_size fs = 0")
  case True
  then have bad: "bad_offset_len fs e"
    using assms(4) by (rule bad_when_disabled)
  have w1: "w1 = w"
    using True assms(3) by (rule map_loop_disabled)
  have "snd (vhost_user_fs_slave_unmap K (Some fs) (pre @ e # post) w) = (pre @ e # post, w)"
    using True by (simp add: vhost_user_fs_slave_unmap_def split: list.splits)
  with True bad w1 show ?thesis
    by (simp add: vhost_user_fs_slave_map_def map_loop_skips_empty word_sless_alt)
next
  case enabled: False
  have loop: "map_loop K fs fd (pre @ e # post) w = map_loop K fs fd (e # post) w1"
    using assms(1,3) by (rule map_loop_append)
  show ?thesis
  proof (cases "bad_offset_len fs e")
    case True
    with assms(4) loop have "map_loop K fs fd (pre @ e # post) w = (- 1, w1)"
      by simp
    with True enabled assms(2) show ?thesis
      by (simp add: vhost_user_fs_slave_map_def case_prod_beta map_loop_skips_empty
          word_sless_alt)
  next
    case False
    with assms(5) have fail: "fst (K w1 (map_call fs fd e)) \<noteq> cache_host fs + sm_c_offset e"
      by simp
    then have pos: "0 <s snd (K w1 (map_call fs fd e))"
      using posix_map_call [OF assms(1)] by blast
    from False fail assms(4) loop
    have "map_loop K fs fd (pre @ e # post) w =
            (- snd (K w1 (map_call fs fd e)), w1 @ [map_call fs fd e])"
      by simp
    with False enabled assms(2) neg_errno_nonzero [OF pos] neg_errno_negative [OF pos]
    show ?thesis
      by (simp add: vhost_user_fs_slave_map_def case_prod_beta map_loop_skips_empty)
  qed
qed

theorem map_failure_rolls_back_witness:
  "posix_errno (\<lambda>w c. (case c of
       MmapFile addr len r wr fd off \<Rightarrow> (if w = [] then addr else - 1, 12)
     | MmapAnon addr len \<Rightarrow> (addr, 12)
     | _ \<Rightarrow> (0, 12)))
   \<and> vhost_user_fs_slave_map (\<lambda>w c. (case c of
       MmapFile addr len r wr fd off \<Rightarrow> (if w = [] then addr else - 1, 12)
     | MmapAnon addr len \<Rightarrow> (addr, 12)
     | _ \<Rightarrow> (0, 12))) (Some \<lparr>cache_size = 8192, cache_host = 65536\<rparr>)
        [\<lparr>sm_flags = 1, sm_fd_offset = 0, sm_c_offset = 0, sm_len = 0\<rparr>,
         \<lparr>sm_flags = 1, sm_fd_offset = 0, sm_c_offset = 0, sm_len = 4096\<rparr>,
         \<lparr>sm_flags = 3, sm_fd_offset = 4096, sm_c_offset = 4096, sm_len = 4096\<rparr>,
         \<lparr>sm_flags = 1, sm_fd_offset = 0, sm_c_offset = 0, sm_len = - 1\<rparr>] 3 []
     = (- 12,
        [\<lparr>sm_flags = 1, sm_fd_offset = 0, sm_c_offset = 0, sm_len = 0\<rparr>,
         \<lparr>sm_flags = 1, sm_fd_offset = 0, sm_c_offset = 0, sm_len = 4096\<rparr>,
         \<lparr>sm_flags = 3, sm_fd_offset = 4096, sm_c_offset = 4096, sm_len = 4096\<rparr>,
         \<lparr>sm_flags = 1, sm_fd_offset = 0, sm_c_offset = 0, sm_len = 8192\<rparr>],
        [MmapFile 65536 4096 True False 3 0, MmapFile 69632 4096 True True 3 4096,
         MmapAnon 65536 4096, MmapAnon 69632 4096, MmapAnon 65536 8192])"
proof -
  let ?K = "\<lambda>(w :: world) c. (case c of
       MmapFile addr len r wr fd off \<Rightarrow> (if w = [] then addr else - 1, 12 :: c_int)
     | MmapAnon addr len \<Rightarrow> (addr, 12)
     | _ \<Rightarrow> (0 :: u64, 12))"
  have p: "posix_errno ?K"
    by (simp add: posix_errno_def word_sless_alt split: syscall.splits)
  show ?thesis
    using p map_failure_rolls_back [of ?K 3 "\<lparr>cache_size = 8192, cache_host = 65536\<rparr>"
      "[\<lparr>sm_flags = 1, sm_fd_offset = 0, sm_c_offset = 0, sm_len = 0\<rparr>,
        \<lparr>sm_flags = 1, sm_fd_offset = 0, sm_c_offset = 0, sm_len = 4096\<rparr>]" "[]"
      "[MmapFile 65536 4096 True False 3 0]"
      "\<lparr>sm_flags = 3, sm_fd_offset = 4096, sm_c_offset = 4096, sm_len = 4096\<rparr>"
      "[\<lparr>sm_flags = 1, sm_fd_offset = 0, sm_c_offset = 0, sm_len = - 1\<rparr>]"]
    by (simp add: map_call_def bad_offset_len_def vhost_user_fs_slave_unmap_def
        VHOST_USER_FS_FLAG_MAP_R_def VHOST_USER_FS_FLAG_MAP_W_def Let_def)
qed

subsection \<open>C3: the four operations with the cache disabled\<close>

text \<open>
  C3, as the code has it. With \<open>cache_size = 0\<close>, MAP and SYNC return \<open>-1\<close> and touch
  neither the message nor the world, and UNMAP of a message whose first length is
  all-ones returns 0. IO does not read \<open>cache_size\<close>: its result is the same for every
  value of it, so a disabled cache does not make it fail.
\<close>

theorem cache_disabled_results:
  "cache_size fs = 0 \<Longrightarrow>
     vhost_user_fs_slave_map K (Some fs) sm fd w = (- 1, sm, w)
   \<and> vhost_user_fs_slave_sync K (Some fs) sm w = Inr (- 1, w)
   \<and> vhost_user_fs_slave_unmap K (Some fs) (e\<lparr>sm_len := - 1\<rparr> # es) w
        = (0, e\<lparr>sm_len := - 1\<rparr> # es, w)
   \<and> vhost_user_fs_slave_io K mm (Some fs) sm fd w
        = vhost_user_fs_slave_io K mm (Some (fs\<lparr>cache_size := c\<rparr>)) sm fd w"
  by (simp add: vhost_user_fs_slave_map_def vhost_user_fs_slave_sync_def
      vhost_user_fs_slave_unmap_def vhost_user_fs_slave_io_def)

theorem cache_disabled_results_witness:
  "cache_size \<lparr>cache_size = 0, cache_host = 4096\<rparr> = 0
   \<and> vhost_user_fs_slave_map (\<lambda>w c. (0, 0)) (Some \<lparr>cache_size = 0, cache_host = 4096\<rparr>)
        [\<lparr>sm_flags = 1, sm_fd_offset = 0, sm_c_offset = 0, sm_len = 4096\<rparr>] 3 []
       = (- 1, [\<lparr>sm_flags = 1, sm_fd_offset = 0, sm_c_offset = 0, sm_len = 4096\<rparr>], [])
   \<and> vhost_user_fs_slave_sync (\<lambda>w c. (0, 0)) (Some \<lparr>cache_size = 0, cache_host = 4096\<rparr>)
        [\<lparr>sm_flags = 1, sm_fd_offset = 0, sm_c_offset = 0, sm_len = 4096\<rparr>] []
       = Inr (- 1, [])
   \<and> fst (vhost_user_fs_slave_unmap (\<lambda>w c. (0, 0)) (Some \<lparr>cache_size = 0, cache_host = 4096\<rparr>)
        [\<lparr>sm_flags = 0, sm_fd_offset = 0, sm_c_offset = 0, sm_len = - 1\<rparr>] []) = 0"
  using cache_disabled_results [of "\<lparr>cache_size = 0, cache_host = 4096\<rparr>" "\<lambda>w c. (0, 0)"
      "[\<lparr>sm_flags = 1, sm_fd_offset = 0, sm_c_offset = 0, sm_len = 4096\<rparr>]" 3 "[]"
      "\<lparr>sm_flags = 0, sm_fd_offset = 0, sm_c_offset = 0, sm_len = 0\<rparr>" "[]"]
  by simp

text \<open>
  The claim as stated fails for IO: with the cache disabled, a read of 4096 bytes
  into guest memory through descriptor 3 is carried out and returns 4096.
\<close>

theorem io_ignores_disabled_cache:
  "cache_size \<lparr>cache_size = 0, cache_host = 0\<rparr> = 0
   \<and> vhost_user_fs_slave_io (\<lambda>w c. (4096, 0))
        (\<lambda>gpa len. \<lparr>mrs_size = len, mrs_readonly = False, mrs_hostptr = gpa\<rparr>)
        (Some \<lparr>cache_size = 0, cache_host = 0\<rparr>)
        [\<lparr>sm_flags = 1, sm_fd_offset = 0, sm_c_offset = 0, sm_len = 4096\<rparr>] 3 []
       = Some (Inr (4096, [MemoryRegionFind 0 4096, Pread 3 0 4096 0, Close 3]))
   \<and> \<not> (4096 :: u64) <s 0"
  by (simp add: vhost_user_fs_slave_io_def io_while.simps io_body_def
      VHOST_USER_FS_FLAG_MAP_R_def VHOST_USER_FS_FLAG_MAP_W_def Let_def word_sless_alt)

subsection \<open>C6: the walk of IO over a guest physical range\<close>

text \<open>
  C6 at an entry that needs two slices. Guest memory is two regions of 4096 bytes,
  \<open>[4096, 8192)\<close> and \<open>[8192, 12288)\<close>, mapped at host address \<open>1048576 + gpa\<close>; the
  entry asks to read 8192 bytes of the file from offset 0 to guest address 4096, and
  every \<open>pread\<close> returns the 4096 bytes it was asked for. The second pass of the
  loop looks up guest address 4096 again and reads file offset 0 again into the same
  host pointer: the bytes of the second region are never written, and the result
  reports 8192 bytes transferred.
\<close>

theorem io_second_slice_repeats_first:
  "vhost_user_fs_slave_io (\<lambda>w c. (4096, 0))
        (\<lambda>gpa len. \<lparr>mrs_size = min len (8192 - gpa), mrs_readonly = False,
                       mrs_hostptr = 1048576 + gpa\<rparr>)
        (Some \<lparr>cache_size = 0, cache_host = 0\<rparr>)
        [\<lparr>sm_flags = 1, sm_fd_offset = 0, sm_c_offset = 4096, sm_len = 8192\<rparr>] 3 []
       = Some (Inr (8192,
           [MemoryRegionFind 4096 8192, Pread 3 1052672 4096 0,
            MemoryRegionFind 4096 4096, Pread 3 1052672 4096 0, Close 3]))"
  by (simp add: vhost_user_fs_slave_io_def io_while.simps io_body_def
      VHOST_USER_FS_FLAG_MAP_R_def VHOST_USER_FS_FLAG_MAP_W_def Let_def word_sless_alt)

subsection \<open>C10: what UNMAP writes into the caller's message\<close>

text \<open>
  C10, as the code has it. When the device is present and its cache is enabled, the
  message after \<open>vhost_user_fs_slave_unmap\<close> is the message before it with every
  length of all-ones replaced by \<open>cache_size\<close> and nothing else changed; when the
  cache is disabled (or the device is absent) the message is returned untouched. The
  message MAP returns is the one it was given, unless its loop failed and the
  rollback ran: then it is the message as UNMAP rewrote it.
\<close>

theorem unmap_rewrites_whole_cache_len:
  "fst (snd (vhost_user_fs_slave_unmap K fso sm w)) =
     (case fso of
        None \<Rightarrow> sm
      | Some fs \<Rightarrow>
          if cache_size fs = 0 then sm
          else map (\<lambda>e. if sm_len e = - 1 then e\<lparr>sm_len := cache_size fs\<rparr> else e) sm)
   \<and> fst (snd (vhost_user_fs_slave_map K fso sm fd w)) =
     (case fso of
        None \<Rightarrow> sm
      | Some fs \<Rightarrow>
          if cache_size fs = 0 \<or> fd < 0 \<or> fst (map_loop K fs fd sm w) = 0 then sm
          else map (\<lambda>e. if sm_len e = - 1 then e\<lparr>sm_len := cache_size fs\<rparr> else e) sm)"
proof -
  have u: "fst (snd (vhost_user_fs_slave_unmap K fso sm w')) =
     (case fso of
        None \<Rightarrow> sm
      | Some fs \<Rightarrow>
          if cache_size fs = 0 then sm
          else map (\<lambda>e. if sm_len e = - 1 then e\<lparr>sm_len := cache_size fs\<rparr> else e) sm)" for w'
  proof (cases fso)
    case None
    then show ?thesis by (simp add: vhost_user_fs_slave_unmap_def)
  next
    case (Some fs)
    show ?thesis
    proof (cases "cache_size fs = 0")
      case True
      with Some show ?thesis
        by (simp add: vhost_user_fs_slave_unmap_def split: list.splits)
    next
      case False
      with Some show ?thesis
        using unmap_loop_msg [of K fs sm 0 w']
        by (simp add: vhost_user_fs_slave_unmap_def case_prod_beta)
    qed
  qed
  show ?thesis
    using u
    by (auto simp: vhost_user_fs_slave_map_def case_prod_beta split: option.splits)
qed

text \<open>
  The claim as stated fails with the cache disabled: the all-ones length of the
  whole-range unmap sent at unmount is still all-ones after the call, not
  \<open>cache_size\<close>.
\<close>

theorem unmap_disabled_cache_keeps_len:
  "sm_len (hd (fst (snd (vhost_user_fs_slave_unmap (\<lambda>w c. (0, 0))
       (Some \<lparr>cache_size = 0, cache_host = 0\<rparr>)
       [\<lparr>sm_flags = 0, sm_fd_offset = 0, sm_c_offset = 0, sm_len = - 1\<rparr>] [])))) = - 1
   \<and> sm_len (hd (fst (snd (vhost_user_fs_slave_unmap (\<lambda>w c. (0, 0))
       (Some \<lparr>cache_size = 0, cache_host = 0\<rparr>)
       [\<lparr>sm_flags = 0, sm_fd_offset = 0, sm_c_offset = 0, sm_len = - 1\<rparr>] []))))
       \<noteq> cache_size \<lparr>cache_size = 0, cache_host = 0\<rparr>"
  by (simp add: vhost_user_fs_slave_unmap_def)

section \<open>Properties of the descriptor copier\<close>

subsection \<open>Helper lemmas\<close>

lemma length_iov_addrs [simp]: "length (iov_addrs iov) = iov_size iov"
  by (induction iov) (simp_all add: iov_addrs_def iov_size_def)

lemma iov_addrs_Cons:
  "iov_addrs (v # vs) = [iov_base v ..< iov_base v + iov_len v] @ iov_addrs vs"
  by (simp add: iov_addrs_def)

lemma iov_addrs_Nil [simp]: "iov_addrs [] = []"
  by (simp add: iov_addrs_def)

lemma copy_bytes_Nil [simp]: "copy_bytes m [] ss = m"
  by simp

lemma copy_bytes_Nil2 [simp]: "copy_bytes m ds [] = m"
  by (cases ds) simp_all

lemma copy_bytes_append:
  "length ds1 = length ss1 \<Longrightarrow>
     copy_bytes m (ds1 @ ds2) (ss1 @ ss2) = copy_bytes (copy_bytes m ds1 ss1) ds2 ss2"
  by (induction ds1 ss1 arbitrary: m rule: list_induct2) simp_all

lemma upt_split: "i \<le> j \<Longrightarrow> j \<le> k \<Longrightarrow> [i..<k] = [i..<j] @ [j..<k]"
  by (metis le_Suc_ex upt_add_eq_append)

text \<open>The four ways through one pass of the inner loop.\<close>

lemma inner_zero: "copy_iov_inner m s so 0 dst doff tc = Some (m, dst, doff, tc)"
  by (subst copy_iov_inner.simps) simp

lemma inner_nil: "sl \<noteq> 0 \<Longrightarrow> copy_iov_inner m s so sl [] doff tc = None"
  by (subst copy_iov_inner.simps) simp

lemma inner_fill:
  "sl \<noteq> 0 \<Longrightarrow> doff \<le> iov_len d \<Longrightarrow> iov_len d - doff \<le> sl \<Longrightarrow>
     copy_iov_inner m s so sl (d # ds) doff tc =
       copy_iov_inner (memcpy m (iov_base d + doff) (iov_base s + so) (iov_len d - doff)) s
         (so + (iov_len d - doff)) (sl - (iov_len d - doff)) ds 0 (tc - (iov_len d - doff))"
  by (subst copy_iov_inner.simps) (simp add: min_def Let_def)

lemma inner_part:
  "sl \<noteq> 0 \<Longrightarrow> sl < iov_len d - doff \<Longrightarrow>
     copy_iov_inner m s so sl (d # ds) doff tc =
       Some (memcpy m (iov_base d + doff) (iov_base s + so) sl, d # ds, doff + sl, tc - sl)"
  by (subst copy_iov_inner.simps) (auto simp add: min_def Let_def inner_zero)

lemma copy_iov_inner_flat:
  "dst_pos_ok dst doff \<Longrightarrow> sl \<le> length (drop doff (iov_addrs dst)) \<Longrightarrow>
   \<exists>dst' doff'.
     copy_iov_inner m s so sl dst doff tc =
       Some (copy_bytes m (take sl (drop doff (iov_addrs dst)))
               [iov_base s + so ..< iov_base s + so + sl], dst', doff', tc - sl)
     \<and> dst_pos_ok dst' doff'
     \<and> drop doff' (iov_addrs dst') = drop sl (drop doff (iov_addrs dst))"
proof (induction dst arbitrary: m so sl doff tc)
  case Nil
  then show ?case by (simp add: inner_zero dst_pos_ok_def iov_size_def)
next
  case (Cons d ds)
  show ?case
  proof (cases "sl = 0")
    case True
    with Cons.prems show ?thesis by (simp add: inner_zero)
  next
    case False
    from Cons.prems(1) have le: "doff \<le> iov_len d"
      by (auto simp: dst_pos_ok_def)
    let ?b = "iov_base d"
    let ?r = "iov_len d - doff"
    have dr: "drop doff (iov_addrs (d # ds)) = [?b + doff ..< ?b + iov_len d] @ iov_addrs ds"
      using le by (simp add: iov_addrs_Cons drop_upt)
    show ?thesis
    proof (cases "?r \<le> sl")
      case True
      have len: "sl - ?r \<le> length (drop 0 (iov_addrs ds))"
        using Cons.prems(2) le True by (simp add: dr)
      have ok0: "dst_pos_ok ds 0" by (simp add: dst_pos_ok_def)
      from Cons.IH [OF ok0 len, of "memcpy m (?b + doff) (iov_base s + so) ?r" "so + ?r" "tc - ?r"]
      obtain dst' doff' where
        r: "copy_iov_inner (memcpy m (?b + doff) (iov_base s + so) ?r) s (so + ?r) (sl - ?r) ds 0 (tc - ?r)
             = Some (copy_bytes (memcpy m (?b + doff) (iov_base s + so) ?r)
                       (take (sl - ?r) (drop 0 (iov_addrs ds)))
                       [iov_base s + (so + ?r) ..< iov_base s + (so + ?r) + (sl - ?r)],
                     dst', doff', tc - ?r - (sl - ?r))"
        and ok: "dst_pos_ok dst' doff'"
        and d': "drop doff' (iov_addrs dst') = drop (sl - ?r) (drop 0 (iov_addrs ds))"
        by blast
      have t: "take sl (drop doff (iov_addrs (d # ds))) =
                 [?b + doff ..< ?b + doff + ?r] @ take (sl - ?r) (iov_addrs ds)"
        using le True by (simp add: dr)
      have src: "[iov_base s + so ..< iov_base s + so + sl] =
                 [iov_base s + so ..< iov_base s + so + ?r]
                 @ [iov_base s + (so + ?r) ..< iov_base s + (so + ?r) + (sl - ?r)]"
        using True upt_split [of "iov_base s + so" "iov_base s + so + ?r" "iov_base s + so + sl"]
        by (simp add: add.assoc)
      have mem: "copy_bytes m (take sl (drop doff (iov_addrs (d # ds))))
                   [iov_base s + so ..< iov_base s + so + sl]
               = copy_bytes (memcpy m (?b + doff) (iov_base s + so) ?r)
                   (take (sl - ?r) (iov_addrs ds))
                   [iov_base s + (so + ?r) ..< iov_base s + (so + ?r) + (sl - ?r)]"
        unfolding t by (subst src) (simp add: copy_bytes_append memcpy_def)
      have tc: "tc - ?r - (sl - ?r) = tc - sl"
        using True by simp
      have dd: "drop sl (drop doff (iov_addrs (d # ds))) = drop (sl - ?r) (iov_addrs ds)"
        using le True by (simp add: dr)
      show ?thesis
        using False le True r ok d' mem tc dd
        by (simp add: inner_fill)
    next
      case False
      then have lt: "sl < ?r" by simp
      have t: "take sl (drop doff (iov_addrs (d # ds))) = [?b + doff ..< ?b + doff + sl]"
        using le lt by (simp add: dr take_upt)
      have dd: "drop (doff + sl) (iov_addrs (d # ds)) = drop sl (drop doff (iov_addrs (d # ds)))"
        by (simp add: add.commute)
      have ok: "dst_pos_ok (d # ds) (doff + sl)"
        using lt by (auto simp: dst_pos_ok_def)
      show ?thesis
        using \<open>sl \<noteq> 0\<close> lt t dd ok
        by (simp add: inner_part memcpy_def)
    qed
  qed
qed


lemma take_append_upt:
  "take n ([a ..< a + l] @ xs) = [a ..< a + min l n] @ take (n - l) xs"
  by (simp add: take_upt min_def)

lemma copy_iov_outer_flat:
  "dst_pos_ok dst doff \<Longrightarrow> tc \<le> iov_size src \<Longrightarrow> tc \<le> length (drop doff (iov_addrs dst)) \<Longrightarrow>
   copy_iov_outer m src dst doff tc =
     Some (copy_bytes m (take tc (drop doff (iov_addrs dst))) (take tc (iov_addrs src)))"
proof (induction src arbitrary: m dst doff tc)
  case Nil
  then show ?case by (simp add: iov_size_def)
next
  case (Cons s ss)
  show ?case
  proof (cases "tc = 0")
    case True
    then show ?thesis by simp
  next
    case False
    let ?sl = "min (iov_len s) tc"
    let ?D = "drop doff (iov_addrs dst)"
    have sl: "?sl \<le> length ?D"
      using Cons.prems(3) by simp
    from copy_iov_inner_flat [OF Cons.prems(1) sl, of m s 0 tc]
    obtain dst' doff' where
      r: "copy_iov_inner m s 0 ?sl dst doff tc =
            Some (copy_bytes m (take ?sl ?D) [iov_base s + 0 ..< iov_base s + 0 + ?sl],
                  dst', doff', tc - ?sl)"
      and ok: "dst_pos_ok dst' doff'"
      and d': "drop doff' (iov_addrs dst') = drop ?sl ?D"
      by blast
    have a: "tc - ?sl \<le> iov_size ss"
      using Cons.prems(2) by (auto simp: iov_size_def min_def)
    have b: "tc - ?sl \<le> length (drop doff' (iov_addrs dst'))"
      using Cons.prems(3) by (simp add: d')
    have src: "take tc (iov_addrs (s # ss)) =
                 [iov_base s ..< iov_base s + ?sl] @ take (tc - ?sl) (iov_addrs ss)"
      by (auto simp: iov_addrs_Cons take_append_upt min_def)
    have dstl: "take tc ?D = take ?sl ?D @ take (tc - ?sl) (drop ?sl ?D)"
      by (metis le_add_diff_inverse min.cobounded2 take_add)
    have l: "length (take ?sl ?D) = length [iov_base s ..< iov_base s + ?sl]"
      using sl by simp
    show ?thesis
      using False r Cons.IH [OF ok a b] d'
      unfolding src dstl
      by (simp add: copy_bytes_append [OF l])
  qed
qed

text \<open>
  The two loops of \<open>copy_iov\<close> refine a flat copy: when both arrays hold \<open>n\<close>
  bytes no assertion fails, and the memory is the one a byte-by-byte copy from the
  first \<open>n\<close> addresses of the source to the first \<open>n\<close> addresses of the destination
  leaves, however the bytes are cut into segments on either side.
\<close>

lemma copy_iov_flat:
  "n \<le> iov_size src \<Longrightarrow> n \<le> iov_size dst \<Longrightarrow>
     copy_iov m src dst n = Some (copy_bytes m (take n (iov_addrs dst)) (take n (iov_addrs src)))"
  using copy_iov_outer_flat [of dst 0 n src m]
  by (simp add: copy_iov_def dst_pos_ok_def)

lemma copy_bytes_frame: "a \<notin> set ds \<Longrightarrow> copy_bytes m ds ss a = m a"
  by (induction m ds ss rule: copy_bytes.induct) simp_all

lemma copy_bytes_content:
  "length ds = length ss \<Longrightarrow> distinct ds \<Longrightarrow> set ds \<inter> set ss = {} \<Longrightarrow>
     map (copy_bytes m ds ss) ds = map m ss"
proof (induction ds ss arbitrary: m rule: list_induct2)
  case Nil
  then show ?case by simp
next
  case (Cons d ds s ss)
  have "copy_bytes (m(d := m s)) ds ss d = (m(d := m s)) d"
    using Cons.prems by (intro copy_bytes_frame) simp
  moreover have "map (copy_bytes (m(d := m s)) ds ss) ds = map (m(d := m s)) ss"
    using Cons.prems by (intro Cons.IH) auto
  moreover have "map (m(d := m s)) ss = map m ss"
    using Cons.prems by auto
  ultimately show ?case by simp
qed

lemma copy_bytes_same:
  "length ds = length ss \<Longrightarrow> \<forall>(d, s) \<in> set (zip ds ss). m d = m s \<Longrightarrow> copy_bytes m ds ss = m"
proof (induction ds ss arbitrary: m rule: list_induct2)
  case Nil
  then show ?case by simp
next
  case (Cons d ds s ss)
  from Cons.prems have "m(d := m s) = m"
    by auto
  with Cons show ?case by simp
qed


lemma copy_bytes_round_trip:
  assumes "length ds = length ss" and "distinct ds" and "set ds \<inter> set ss = {}"
  shows "copy_bytes (copy_bytes m ds ss) ss ds = copy_bytes m ds ss"
proof -
  let ?m1 = "copy_bytes m ds ss"
  have c: "map ?m1 ds = map m ss"
    using assms by (rule copy_bytes_content)
  have "?m1 s = ?m1 d" if "(s, d) \<in> set (zip ss ds)" for s d
  proof -
    from that obtain i where i: "i < length ss" "i < length ds" "s = ss ! i" "d = ds ! i"
      by (auto simp: set_zip)
    have "s \<notin> set ds"
      using assms(3) i by auto
    then have "?m1 s = m s"
      by (rule copy_bytes_frame)
    moreover have "?m1 d = m s"
      using c i by (metis length_map nth_map)
    ultimately show ?thesis by simp
  qed
  then show ?thesis
    using assms(1) by (intro copy_bytes_same) auto
qed

subsection \<open>C8: copying there and back\<close>

text \<open>
  C8, as the code has it. Let the source array hold at least \<open>n\<close> bytes and the
  destination array have room for at least \<open>n\<close> bytes, and let the byte slots of
  the destination be distinct addresses, none of them a byte of the source. Then
  \<open>copy_iov\<close> of \<open>n\<close> bytes from the source to the destination succeeds,
  \<open>copy_iov\<close> of \<open>n\<close> bytes back succeeds, the first \<open>n\<close> bytes of the
  destination are the first \<open>n\<close> bytes of the source, and afterwards the source
  holds exactly the bytes it held before. Nothing is assumed about where the
  segments of either array begin and end. \<open>copy_iov\<close> itself tests neither of the
  two conditions on the destination: it only asserts that the destination has room.
\<close>

theorem copy_iov_round_trip:
  assumes "n \<le> iov_size src" and "n \<le> iov_size dst"
    and "distinct (iov_addrs dst)"
    and "set (iov_addrs src) \<inter> set (iov_addrs dst) = {}"
  shows "\<exists>m1 m2. copy_iov m src dst n = Some m1 \<and> copy_iov m1 dst src n = Some m2
           \<and> take n (iov_bytes m1 dst) = take n (iov_bytes m src)
           \<and> iov_bytes m2 src = iov_bytes m src"
proof -
  let ?D = "take n (iov_addrs dst)"
  let ?S = "take n (iov_addrs src)"
  let ?m1 = "copy_bytes m ?D ?S"
  have len: "length ?D = length ?S"
    using assms(1,2) by simp
  have dist: "distinct ?D"
    using assms(3) by (rule distinct_take)
  have disj: "set ?D \<inter> set ?S = {}"
    using assms(4) by (meson disjoint_iff in_set_takeD)
  have c1: "copy_iov m src dst n = Some ?m1"
    using assms(1,2) by (rule copy_iov_flat)
  have c2: "copy_iov ?m1 dst src n = Some ?m1"
    using copy_iov_flat [OF assms(2,1), of ?m1] copy_bytes_round_trip [OF len dist disj]
    by simp
  have content: "take n (iov_bytes ?m1 dst) = take n (iov_bytes m src)"
    using copy_bytes_content [OF len dist disj, of m]
    by (simp add: iov_bytes_def take_map)
  have "?m1 a = m a" if "a \<in> set (iov_addrs src)" for a
  proof -
    from that assms(4) have "a \<notin> set ?D"
      by (meson disjoint_iff in_set_takeD)
    then show ?thesis by (rule copy_bytes_frame)
  qed
  then have restored: "iov_bytes ?m1 src = iov_bytes m src"
    by (simp add: iov_bytes_def)
  from c1 c2 content restored show ?thesis by blast
qed

theorem copy_iov_round_trip_witness:
  "(5::nat) \<le> iov_size [\<lparr>iov_base = 0, iov_len = 3\<rparr>, \<lparr>iov_base = 10, iov_len = 4\<rparr>]
   \<and> 5 \<le> iov_size [\<lparr>iov_base = 100, iov_len = 1\<rparr>, \<lparr>iov_base = 200, iov_len = 0\<rparr>,
                     \<lparr>iov_base = 300, iov_len = 2\<rparr>, \<lparr>iov_base = 400, iov_len = 5\<rparr>]
   \<and> distinct (iov_addrs [\<lparr>iov_base = 100, iov_len = 1\<rparr>, \<lparr>iov_base = 200, iov_len = 0\<rparr>,
                     \<lparr>iov_base = 300, iov_len = 2\<rparr>, \<lparr>iov_base = 400, iov_len = 5\<rparr>])
   \<and> (\<exists>m1 m2.
        copy_iov (\<lambda>a. of_nat a) [\<lparr>iov_base = 0, iov_len = 3\<rparr>, \<lparr>iov_base = 10, iov_len = 4\<rparr>]
          [\<lparr>iov_base = 100, iov_len = 1\<rparr>, \<lparr>iov_base = 200, iov_len = 0\<rparr>,
           \<lparr>iov_base = 300, iov_len = 2\<rparr>, \<lparr>iov_base = 400, iov_len = 5\<rparr>] 5 = Some m1
        \<and> copy_iov m1 [\<lparr>iov_base = 100, iov_len = 1\<rparr>, \<lparr>iov_base = 200, iov_len = 0\<rparr>,
           \<lparr>iov_base = 300, iov_len = 2\<rparr>, \<lparr>iov_base = 400, iov_len = 5\<rparr>]
           [\<lparr>iov_base = 0, iov_len = 3\<rparr>, \<lparr>iov_base = 10, iov_len = 4\<rparr>] 5 = Some m2
        \<and> take 5 (iov_bytes m1 [\<lparr>iov_base = 100, iov_len = 1\<rparr>, \<lparr>iov_base = 200, iov_len = 0\<rparr>,
           \<lparr>iov_base = 300, iov_len = 2\<rparr>, \<lparr>iov_base = 400, iov_len = 5\<rparr>]) = [0, 1, 2, 10, 11]
        \<and> iov_bytes m2 [\<lparr>iov_base = 0, iov_len = 3\<rparr>, \<lparr>iov_base = 10, iov_len = 4\<rparr>]
            = [0, 1, 2, 10, 11, 12, 13])"
proof -
  let ?src = "[\<lparr>iov_base = 0, iov_len = 3\<rparr>, \<lparr>iov_base = 10, iov_len = 4\<rparr>]"
  let ?dst = "[\<lparr>iov_base = 100, iov_len = 1\<rparr>, \<lparr>iov_base = 200, iov_len = 0\<rparr>,
               \<lparr>iov_base = 300, iov_len = 2\<rparr>, \<lparr>iov_base = 400, iov_len = 5\<rparr>]"
  have h1: "(5::nat) \<le> iov_size ?src" by code_simp
  have h2: "(5::nat) \<le> iov_size ?dst" by code_simp
  have h3: "distinct (iov_addrs ?dst)" by code_simp
  have h4: "set (iov_addrs ?src) \<inter> set (iov_addrs ?dst) = {}" by code_simp
  have b: "iov_bytes (\<lambda>a. of_nat a) ?src = [0, 1, 2, 10, 11, 12, 13]" by code_simp
  from copy_iov_round_trip [OF h1 h2 h3 h4, of "\<lambda>a. of_nat a"] h1 h2 h3 b
  show ?thesis by simp
qed

text \<open>
  The claim as stated fails when two segments of the destination name the same
  memory. The source is one iovec of 2 bytes at address 0, holding 65 and 66; the
  destination is two iovecs of 1 byte, both at address 100. Each array holds 2
  bytes, no destination byte is a source byte and no \<open>memcpy\<close> copies overlapping
  areas. Copying 2 bytes there puts 65 and then 66 into address 100; copying 2
  bytes back leaves the source holding 66 and 66.
\<close>

theorem copy_iov_aliased_destination:
  "2 \<le> iov_size [\<lparr>iov_base = 0, iov_len = 2\<rparr>]
   \<and> 2 \<le> iov_size [\<lparr>iov_base = 100, iov_len = 1\<rparr>, \<lparr>iov_base = 100, iov_len = 1\<rparr>]
   \<and> iov_bytes (\<lambda>a. if a = 0 then 65 else if a = 1 then 66 else 0)
         [\<lparr>iov_base = 0, iov_len = 2\<rparr>] = [65, 66]
   \<and> (\<exists>m1 m2.
         copy_iov (\<lambda>a. if a = 0 then 65 else if a = 1 then 66 else 0)
           [\<lparr>iov_base = 0, iov_len = 2\<rparr>]
           [\<lparr>iov_base = 100, iov_len = 1\<rparr>, \<lparr>iov_base = 100, iov_len = 1\<rparr>] 2 = Some m1
         \<and> copy_iov m1
           [\<lparr>iov_base = 100, iov_len = 1\<rparr>, \<lparr>iov_base = 100, iov_len = 1\<rparr>]
           [\<lparr>iov_base = 0, iov_len = 2\<rparr>] 2 = Some m2
         \<and> iov_bytes m2 [\<lparr>iov_base = 0, iov_len = 2\<rparr>] = [66, 66])"
proof -
  let ?src = "[\<lparr>iov_base = 0, iov_len = 2\<rparr>]"
  let ?dst = "[\<lparr>iov_base = 100, iov_len = 1\<rparr>, \<lparr>iov_base = 100, iov_len = 1\<rparr>]"
  let ?m = "\<lambda>a::nat. if a = 0 then 65 else if a = 1 then (66::byte) else 0"
  have a: "iov_addrs ?src = [0, Suc 0]"
    by (simp add: iov_addrs_def upt_rec)
  have le: "2 \<le> iov_size ?src" "2 \<le> iov_size ?dst"
    by (simp_all add: iov_size_def)
  have t: "take 2 (iov_addrs ?src) = [0, Suc 0]" "take 2 (iov_addrs ?dst) = [100, 100]"
    by (simp_all add: iov_addrs_def upt_rec)
  have c1: "copy_iov ?m ?src ?dst 2 = Some (copy_bytes ?m [100, 100] [0, Suc 0])"
    using copy_iov_flat [OF le(1) le(2), of ?m] by (simp only: t)
  have c2: "copy_iov (copy_bytes ?m [100, 100] [0, Suc 0]) ?dst ?src 2 =
              Some (copy_bytes (copy_bytes ?m [100, 100] [0, Suc 0]) [0, Suc 0] [100, 100])"
    using copy_iov_flat [OF le(2) le(1), of "copy_bytes ?m [100, 100] [0, Suc 0]"]
    by (simp only: t)
  have b0: "iov_bytes ?m ?src = [65, 66]"
    by (simp add: iov_bytes_def a)
  have b2: "iov_bytes (copy_bytes (copy_bytes ?m [100, 100] [0, Suc 0]) [0, Suc 0] [100, 100]) ?src
              = [66, 66]"
    by (simp add: iov_bytes_def a)
  from c1 c2 b2 have "\<exists>m1 m2. copy_iov ?m ?src ?dst 2 = Some m1 \<and> copy_iov m1 ?dst ?src 2 = Some m2
         \<and> iov_bytes m2 ?src = [66, 66]"
    by blast
  with le b0 show ?thesis by (intro conjI) assumption+
qed

section \<open>Properties of the reply paths\<close>

subsection \<open>C9: a notification while notifications are disabled\<close>

text \<open>
  C9. Let \<open>virtio_send_msg\<close> be called with at least one iovec, the first one large
  enough for a \<open>fuse_out_header\<close> (its two assertions), whose \<open>unique\<close> field is 0,
  while \<open>notify_enabled\<close> is false. Then it returns \<open>-EOPNOTSUPP\<close>, and the state is
  the one it was called in: no queue lost a descriptor, no event happened, memory
  is unchanged.
\<close>

theorem notification_disabled_not_supported:
  assumes "iov \<noteq> []"
    and "sizeof_fuse_out_header abi \<le> iov_len (hd iov)"
    and "out_header_unique abi
           (read_bytes (memory st) (iov_base (hd iov)) (sizeof_fuse_out_header abi)) = 0"
    and "\<not> notify_enabled st"
  shows "virtio_send_msg abi st ch iov = Inr (- EOPNOTSUPP, st, ch)"
proof -
  from assms(1) obtain v vs where iov: "iov = v # vs"
    by (cases iov) auto
  with assms(2-4) show ?thesis
    by (simp add: virtio_send_msg_def virtio_send_notify_msg_def Let_def)
qed

theorem notification_disabled_not_supported_witness:
  "[\<lparr>iov_base = 0, iov_len = 16\<rparr>, \<lparr>iov_base = 64, iov_len = 8\<rparr>] \<noteq> []
   \<and> sizeof_fuse_out_header linux_fuse_abi
        \<le> iov_len (hd [\<lparr>iov_base = 0, iov_len = 16\<rparr>, \<lparr>iov_base = 64, iov_len = 8\<rparr>])
   \<and> \<not> notify_enabled \<lparr>memory = (\<lambda>a. 0),
          avail = (\<lambda>q. [(\<lparr>elem_index = q, out_sg = [], in_sg = [\<lparr>iov_base = 4096, iov_len = 64\<rparr>]\<rparr>, 0, 0)]),
          events = [], notify_enabled = False, bufsize = 4096\<rparr>
   \<and> virtio_send_msg linux_fuse_abi
        \<lparr>memory = (\<lambda>a. 0),
         avail = (\<lambda>q. [(\<lparr>elem_index = q, out_sg = [], in_sg = [\<lparr>iov_base = 4096, iov_len = 64\<rparr>]\<rparr>, 0, 0)]),
         events = [], notify_enabled = False, bufsize = 4096\<rparr>
        None [\<lparr>iov_base = 0, iov_len = 16\<rparr>, \<lparr>iov_base = 64, iov_len = 8\<rparr>]
      = Inr (- EOPNOTSUPP,
         \<lparr>memory = (\<lambda>a. 0),
          avail = (\<lambda>q. [(\<lparr>elem_index = q, out_sg = [], in_sg = [\<lparr>iov_base = 4096, iov_len = 64\<rparr>]\<rparr>, 0, 0)]),
          events = [], notify_enabled = False, bufsize = 4096\<rparr>, None)"
proof -
  let ?iov = "[\<lparr>iov_base = 0, iov_len = 16\<rparr>, \<lparr>iov_base = 64, iov_len = 8\<rparr>]"
  let ?st = "\<lparr>memory = (\<lambda>a. 0),
         avail = (\<lambda>q. [(\<lparr>elem_index = q, out_sg = [], in_sg = [\<lparr>iov_base = 4096, iov_len = 64\<rparr>]\<rparr>, 0, 0)]),
         events = [], notify_enabled = False, bufsize = 4096\<rparr>"
  have h1: "?iov \<noteq> []" by simp
  have h2: "sizeof_fuse_out_header linux_fuse_abi \<le> iov_len (hd ?iov)"
    by (simp add: linux_fuse_abi_def)
  have h3: "out_header_unique linux_fuse_abi
              (read_bytes (memory ?st) (iov_base (hd ?iov)) (sizeof_fuse_out_header linux_fuse_abi)) = 0"
    by (simp add: linux_fuse_abi_def read_bytes_def le_word_def take_map drop_map)
  have h4: "\<not> notify_enabled ?st" by simp
  from notification_disabled_not_supported [OF h1 h2 h3 h4, of None] h1 h2 h4
  show ?thesis by simp
qed

subsection \<open>C5: the plain reply\<close>

text \<open>
  C5. Let \<open>virtio_send_msg\<close> be called for a request whose reply was not sent yet,
  with at least one iovec, the first one large enough for a \<open>fuse_out_header\<close>,
  and a \<open>unique\<close> field that is not 0 (the plain reply path). When the total
  length of the sink iovecs is smaller than the header or smaller than the reply, it
  returns \<open>-E2BIG\<close> and neither the state nor the request changes: nothing is
  pushed and \<open>reply_sent\<close> stays false. Otherwise it returns 0, the memory is the
  one \<open>copy_iov\<close> leaves after copying the whole reply into the sink, the events it
  adds are, in this order, the read lock on the dispatch rwlock, the lock of the
  queue's mutex, the push of the element with the length of the reply, the notify,
  and the two unlocks, and \<open>reply_sent\<close> is true. When the sink's byte slots are
  distinct and none is a byte of the reply, the sink then starts with the bytes of
  the reply.
\<close>

theorem virtio_send_msg_plain_reply:
  assumes "iov \<noteq> []"
    and "sizeof_fuse_out_header abi \<le> iov_len (hd iov)"
    and "out_header_unique abi
           (read_bytes (memory st) (iov_base (hd iov)) (sizeof_fuse_out_header abi)) \<noteq> 0"
    and "\<not> reply_sent req"
  shows "virtio_send_msg abi st (Some req) iov =
           (if iov_size (in_sg (elem req)) < sizeof_fuse_out_header abi
               \<or> iov_size (in_sg (elem req)) < iov_size iov
            then Inr (- E2BIG, st, Some req)
            else
              Inr (0,
                   st\<lparr>memory := copy_bytes (memory st)
                                   (take (iov_size iov) (iov_addrs (in_sg (elem req))))
                                   (iov_addrs iov),
                      events := events st @
                        [RdLock, MutexLock (ch_qidx req),
                         Push (ch_qidx req) (elem_index (elem req)) (iov_size iov),
                         Notify (ch_qidx req),
                         MutexUnlock (ch_qidx req), RwUnlock]\<rparr>,
                   Some (req\<lparr>reply_sent := True\<rparr>)))
       \<and> (iov_size iov \<le> iov_size (in_sg (elem req))
            \<and> distinct (iov_addrs (in_sg (elem req)))
            \<and> set (iov_addrs iov) \<inter> set (iov_addrs (in_sg (elem req))) = {}
          \<longrightarrow> take (iov_size iov)
                (iov_bytes (copy_bytes (memory st)
                              (take (iov_size iov) (iov_addrs (in_sg (elem req))))
                              (iov_addrs iov))
                   (in_sg (elem req)))
              = iov_bytes (memory st) iov)"
proof -
  let ?n = "iov_size iov"
  let ?sink = "in_sg (elem req)"
  from assms(1) obtain v vs where iov: "iov = v # vs"
    by (cases iov) auto
  have first: "virtio_send_msg abi st (Some req) iov =
           (if iov_size ?sink < sizeof_fuse_out_header abi \<or> iov_size ?sink < ?n
            then Inr (- E2BIG, st, Some req)
            else
              Inr (0,
                   st\<lparr>memory := copy_bytes (memory st) (take ?n (iov_addrs ?sink)) (iov_addrs iov),
                      events := events st @
                        [RdLock, MutexLock (ch_qidx req),
                         Push (ch_qidx req) (elem_index (elem req)) ?n,
                         Notify (ch_qidx req),
                         MutexUnlock (ch_qidx req), RwUnlock]\<rparr>,
                   Some (req\<lparr>reply_sent := True\<rparr>)))"
  proof (cases "iov_size ?sink < sizeof_fuse_out_header abi \<or> iov_size ?sink < ?n")
    case True
    with assms(2-4) show ?thesis
      by (auto simp: virtio_send_msg_def Let_def iov)
  next
    case False
    then have fits: "?n \<le> iov_size ?sink" by simp
    have "copy_iov (memory st) iov ?sink ?n =
            Some (copy_bytes (memory st) (take ?n (iov_addrs ?sink)) (take ?n (iov_addrs iov)))"
      using fits by (intro copy_iov_flat) simp_all
    then have c: "copy_iov (memory st) (v # vs) ?sink (iov_size (v # vs)) =
            Some (copy_bytes (memory st) (take ?n (iov_addrs ?sink)) (iov_addrs iov))"
      by (simp add: iov)
    from False assms(2-4) c show ?thesis
      by (simp add: virtio_send_msg_def Let_def iov locked_push_def vu_queue_push_def
          vu_queue_notify_def emit_def)
  qed
  have second: "take ?n (iov_bytes (copy_bytes (memory st) (take ?n (iov_addrs ?sink)) (iov_addrs iov)) ?sink)
              = iov_bytes (memory st) iov"
    if "?n \<le> iov_size ?sink" and "distinct (iov_addrs ?sink)"
      and "set (iov_addrs iov) \<inter> set (iov_addrs ?sink) = {}"
  proof -
    have len: "length (take ?n (iov_addrs ?sink)) = length (iov_addrs iov)"
      using that(1) by simp
    have dist: "distinct (take ?n (iov_addrs ?sink))"
      using that(2) by (rule distinct_take)
    have disj: "set (take ?n (iov_addrs ?sink)) \<inter> set (iov_addrs iov) = {}"
      using that(3) by (meson disjoint_iff in_set_takeD)
    from copy_bytes_content [OF len dist disj, of "memory st"] show ?thesis
      by (simp add: iov_bytes_def take_map)
  qed
  from first second show ?thesis by blast
qed

theorem virtio_send_msg_plain_reply_witness:
  "example_reply \<noteq> []
   \<and> sizeof_fuse_out_header linux_fuse_abi \<le> iov_len (hd example_reply)
   \<and> out_header_unique linux_fuse_abi
         (read_bytes (memory example_state) (iov_base (hd example_reply))
            (sizeof_fuse_out_header linux_fuse_abi)) \<noteq> 0
   \<and> \<not> reply_sent example_write_req
   \<and> iov_size example_reply \<le> iov_size (in_sg (elem example_write_req))
   \<and> distinct (iov_addrs (in_sg (elem example_write_req)))
   \<and> set (iov_addrs example_reply) \<inter> set (iov_addrs (in_sg (elem example_write_req))) = {}
   \<and> virtio_send_msg linux_fuse_abi example_state (Some example_write_req) example_reply =
         Inr (0,
              example_state
                \<lparr>memory := copy_bytes example_mem
                              (take 24 (iov_addrs (in_sg (elem example_write_req))))
                              (iov_addrs example_reply),
                 events := [RdLock, MutexLock 1, Push 1 3 24, Notify 1, MutexUnlock 1, RwUnlock]\<rparr>,
              Some (example_write_req\<lparr>reply_sent := True\<rparr>))
   \<and> take 24 (iov_bytes (copy_bytes example_mem
                            (take 24 (iov_addrs (in_sg (elem example_write_req))))
                            (iov_addrs example_reply))
                (in_sg (elem example_write_req)))
       = iov_bytes example_mem example_reply"
proof -
  have h1: "example_reply \<noteq> []"
    by (simp add: example_reply_def)
  have h2: "sizeof_fuse_out_header linux_fuse_abi \<le> iov_len (hd example_reply)"
    by (simp add: example_reply_def linux_fuse_abi_def)
  have h3: "out_header_unique linux_fuse_abi
         (read_bytes (memory example_state) (iov_base (hd example_reply))
            (sizeof_fuse_out_header linux_fuse_abi)) \<noteq> 0"
    by (simp add: linux_fuse_abi_def example_state_def example_reply_def example_mem_def
        read_bytes_def le_word_def take_map drop_map)
  have h4: "\<not> reply_sent example_write_req"
    by (simp add: example_write_req_def)
  have n: "iov_size example_reply = 24"
    by (simp add: example_reply_def iov_size_def)
  have k: "iov_size (in_sg (elem example_write_req)) = 40"
    by (simp add: example_write_req_def iov_size_def)
  have a1: "iov_size example_reply \<le> iov_size (in_sg (elem example_write_req))"
    by (simp add: n k)
  have a2: "distinct (iov_addrs (in_sg (elem example_write_req)))"
    by (auto simp: example_write_req_def iov_addrs_def)
  have a3: "set (iov_addrs example_reply) \<inter> set (iov_addrs (in_sg (elem example_write_req))) = {}"
    by (auto simp: example_write_req_def example_reply_def iov_addrs_def)
  have header: "\<not> (iov_size (in_sg (elem example_write_req)) < sizeof_fuse_out_header linux_fuse_abi
               \<or> iov_size (in_sg (elem example_write_req)) < iov_size example_reply)"
    by (simp add: n k linux_fuse_abi_def)
  have q: "ch_qidx example_write_req = 1 \<and> elem_index (elem example_write_req) = 3"
    by (simp add: example_write_req_def)
  have st: "memory example_state = example_mem \<and> events example_state = []"
    by (simp add: example_state_def)
  note t = virtio_send_msg_plain_reply [OF h1 h2 h3 h4]
  from t [THEN conjunct1] header
  have r: "virtio_send_msg linux_fuse_abi example_state (Some example_write_req) example_reply =
         Inr (0,
              example_state
                \<lparr>memory := copy_bytes example_mem
                              (take 24 (iov_addrs (in_sg (elem example_write_req))))
                              (iov_addrs example_reply),
                 events := [RdLock, MutexLock 1, Push 1 3 24, Notify 1, MutexUnlock 1, RwUnlock]\<rparr>,
              Some (example_write_req\<lparr>reply_sent := True\<rparr>))"
    by (simp add: n q st)
  from t [THEN conjunct2, THEN mp, OF conjI [OF a1 conjI [OF a2 a3]]]
  have c: "take 24 (iov_bytes (copy_bytes example_mem
                            (take 24 (iov_addrs (in_sg (elem example_write_req))))
                            (iov_addrs example_reply))
                (in_sg (elem example_write_req)))
       = iov_bytes example_mem example_reply"
    by (simp add: n st)
  from h1 h2 h3 h4 a1 a2 a3 r c show ?thesis
    by (intro conjI) assumption+
qed

subsection \<open>A notification that does not fit its descriptor\<close>

text \<open>
  A notification of 24 bytes while the notification queue offers one descriptor
  chain, number 5, with a sink of 16 bytes. \<open>virtio_send_msg\<close> returns \<open>-E2BIG\<close>;
  the chain has been popped from queue 1 and freed, and no push of it happened on
  the way. The chain belongs to the notification queue; the request the session is
  working on is not touched.
\<close>

lemma notification_too_big_drops_descriptor:
  "virtio_send_msg linux_fuse_abi
        \<lparr>memory = (\<lambda>a. 0),
         avail = (\<lambda>q. if q = 1
            then [(\<lparr>elem_index = 5, out_sg = [], in_sg = [\<lparr>iov_base = 4096, iov_len = 16\<rparr>]\<rparr>, 0, 0)]
            else []),
         events = [], notify_enabled = True, bufsize = 4096\<rparr>
        None [\<lparr>iov_base = 0, iov_len = 16\<rparr>, \<lparr>iov_base = 64, iov_len = 8\<rparr>]
      = Inr (- E2BIG,
         \<lparr>memory = write_bytes (\<lambda>a. 0) 0 (le_bytes 4 24 @ drop 4 (read_bytes (\<lambda>a. 0) 0 16)),
          avail = (\<lambda>q. if q = 1
            then [(\<lparr>elem_index = 5, out_sg = [], in_sg = [\<lparr>iov_base = 4096, iov_len = 16\<rparr>]\<rparr>, 0, 0)]
            else [])(1 := []),
          events = [RdLock, MutexLock 1, Pop 1 5, MutexUnlock 1, RwUnlock, Free 5],
          notify_enabled = True, bufsize = 4096\<rparr>, None)"
proof -
  have u: "out_header_unique linux_fuse_abi (read_bytes (\<lambda>a. 0) 0 16) = 0"
    by (simp add: linux_fuse_abi_def read_bytes_def le_word_def take_map drop_map)
  have r: "write_bytes (\<lambda>a. 0) 0 (out_header_set_len linux_fuse_abi 24 (read_bytes (\<lambda>a. 0) 0 16))
         = write_bytes (\<lambda>a. 0) 0 (le_bytes 4 24 @ drop 4 (read_bytes (\<lambda>a. 0) 0 16))"
    by (simp add: linux_fuse_abi_def)
  have s: "sizeof_fuse_out_header linux_fuse_abi = 16"
    by (simp add: linux_fuse_abi_def)
  show ?thesis
    using u r
    by (simp add: virtio_send_msg_def virtio_send_notify_msg_def Let_def s
      vu_queue_pop_def emit_def iov_size_def E2BIG_def)
qed

section \<open>Properties of the queue worker\<close>

subsection \<open>Helper lemmas\<close>

lemma copy_from_iov_bytes: "copy_from_iov m dest sg = dest @ iov_bytes m sg"
  by (induction sg arbitrary: dest) (simp_all add: iov_bytes_def iov_addrs_def read_bytes_def)

lemma iov_bytes_append: "iov_bytes m xs @ iov_bytes m ys = iov_bytes m (xs @ ys)"
  by (simp add: iov_bytes_def iov_addrs_def)

lemma in_place_bufs_readable:
  "k + length vs \<le> r \<Longrightarrow>
     in_place_bufs abi r k vs =
       map (\<lambda>v. \<lparr>buf_size = iov_len v, buf_flags = 0, buf_pos = - 1, buf_mem = InPlace (iov_base v)\<rparr>) vs"
  by (induction vs arbitrary: k) simp_all

lemma worker_bufv_mappable:
  assumes "0 < sizeof_fuse_in_header abi"
    and "sizeof_fuse_in_header abi < se_bufsize"
    and "bad_in_num req = 0" and "bad_out_num req = 0"
    and "sizeof_fuse_in_header abi \<le> iov_size (out_sg (elem req))"
    and "iov_size (out_sg (elem req)) \<le> se_bufsize"
  shows "fv_queue_worker_bufv abi se_bufsize m req =
           (if 2 < length (out_sg (elem req))
               \<and> iov_len (out_sg (elem req) ! 0) = sizeof_fuse_in_header abi
               \<and> iov_len (out_sg (elem req) ! 1) = sizeof_fuse_write_in abi
               \<and> in_header_opcode abi (iov_bytes m (take 1 (out_sg (elem req)))) = FUSE_WRITE abi
            then
              Inr (\<lparr>buf_size = iov_len (out_sg (elem req) ! 0) + iov_len (out_sg (elem req) ! 1),
                    buf_flags = 0, buf_pos = 0,
                    buf_mem = Bounce (iov_bytes m (take 2 (out_sg (elem req))))\<rparr>
                   # map (\<lambda>v. \<lparr>buf_size = iov_len v, buf_flags = 0, buf_pos = - 1,
                                buf_mem = InPlace (iov_base v)\<rparr>)
                       (drop 2 (out_sg (elem req))))
            else
              Inr [\<lparr>buf_size = iov_size (out_sg (elem req)), buf_flags = 0, buf_pos = 0,
                    buf_mem = Bounce (iov_bytes m (out_sg (elem req)))\<rparr>])"
proof -
  let ?sg = "out_sg (elem req)"
  from assms(1,5) obtain v0 rest where sg: "?sg = v0 # rest"
    by (cases ?sg) (auto simp: iov_size_def)
  have chk: "\<not> iov_size (take (length (v0 # rest) - 0) (v0 # rest)) < sizeof_fuse_in_header abi"
    using assms(5) by (simp add: sg)
  have big: "\<not> se_bufsize < iov_size (v0 # rest)"
    using assms(6) by (simp add: sg)
  show ?thesis
  proof (cases rest)
    case Nil
    with assms(2-4) chk big show ?thesis
      by (simp add: fv_queue_worker_bufv_def Let_def sg copy_from_iov_bytes iov_bytes_append
          del: copy_from_iov.simps)
  next
    case (Cons v1 rest')
    have inpl: "in_place_bufs abi (Suc (Suc (length rest'))) 2 rest' =
        map (\<lambda>v. \<lparr>buf_size = iov_len v, buf_flags = 0, buf_pos = - 1, buf_mem = InPlace (iov_base v)\<rparr>)
          rest'"
      by (intro in_place_bufs_readable) simp
    from assms(2-4) chk big show ?thesis
      by (simp add: fv_queue_worker_bufv_def Let_def sg Cons inpl copy_from_iov_bytes
          iov_bytes_append del: copy_from_iov.simps)
  qed
qed

lemma in_place_bufs_mem: "b \<in> set (in_place_bufs abi r k vs) \<Longrightarrow> \<exists>a. buf_mem b = InPlace a"
  by (induction vs arbitrary: k) auto

lemma worker_bufv_in_place:
  assumes r: "fv_queue_worker_bufv abi se_bufsize m req = Inr bufv"
    and b: "b \<in> set bufv" and ip: "buf_mem b = InPlace a"
  shows "2 < length (out_sg (elem req))
         \<and> iov_len (out_sg (elem req) ! 0) = sizeof_fuse_in_header abi
         \<and> iov_len (out_sg (elem req) ! 1) = sizeof_fuse_write_in abi
         \<and> in_header_opcode abi (iov_bytes m (take 1 (out_sg (elem req)))) = FUSE_WRITE abi"
proof (rule ccontr)
  let ?sg = "out_sg (elem req)"
  assume n: "\<not> (2 < length ?sg
         \<and> iov_len (?sg ! 0) = sizeof_fuse_in_header abi
         \<and> iov_len (?sg ! 1) = sizeof_fuse_write_in abi
         \<and> in_header_opcode abi (iov_bytes m (take 1 ?sg)) = FUSE_WRITE abi)"
  from r obtain v0 rest where sg: "?sg = v0 # rest"
    by (cases ?sg) (simp_all add: fv_queue_worker_bufv_def Let_def split: if_splits)
  from n have nw: "\<not> (2 < length (v0 # rest) \<and> iov_len v0 = sizeof_fuse_in_header abi
      \<and> in_header_opcode abi (copy_from_iov m [] [v0]) = FUSE_WRITE abi
      \<and> iov_len ((v0 # rest) ! 1) = sizeof_fuse_write_in abi)"
    by (auto simp: sg copy_from_iov_bytes simp del: copy_from_iov.simps)
  show False
  proof (cases "bad_out_num req = 0")
    case True
    with r nw have "bufv = [\<lparr>buf_size = iov_size ?sg, buf_flags = 0, buf_pos = 0,
                     buf_mem = Bounce (copy_from_iov m (copy_from_iov m [] [v0]) rest)\<rparr>]"
      unfolding fv_queue_worker_bufv_def Let_def sg list.case
      by (simp split: if_splits del: copy_from_iov.simps)
    with b ip show False by simp
  next
    case False
    have "\<not> (length (v0 # rest) = 2 \<and> length (v0 # rest) - bad_out_num req = 2)"
      using False by auto
    with r nw False show False
      unfolding fv_queue_worker_bufv_def Let_def sg list.case
      by (auto split: if_splits simp del: copy_from_iov.simps)
  qed
qed

subsection \<open>C4: the two size checks of the worker\<close>

text \<open>
  C4, as the code has it. Let the session's buffer be larger than a
  \<open>fuse_in_header\<close> (the worker's first assertion) and let the element have at
  least as many out iovecs as are unmappable. The worker stops at its first
  \<open>assert(0)\<close> exactly when the readable prefix of the out iovecs (the first
  \<open>out_num - bad_out_num\<close> of them) totals less than a \<open>fuse_in_header\<close>, and at
  its second exactly when that check passes and the total length of all out iovecs,
  the unmappable ones included, exceeds the session's buffer size. So neither
  fatal branch is reached when the readable prefix holds a header and the whole out
  region fits the buffer.
\<close>

theorem worker_size_checks:
  assumes "sizeof_fuse_in_header abi < se_bufsize"
    and "bad_out_num req \<le> length (out_sg (elem req))"
  shows "(fv_queue_worker_bufv abi se_bufsize m req = Inl ElemTooShort) =
           (iov_size (take (length (out_sg (elem req)) - bad_out_num req) (out_sg (elem req)))
              < sizeof_fuse_in_header abi)
       \<and> (fv_queue_worker_bufv abi se_bufsize m req = Inl ElemTooLarge) =
           (sizeof_fuse_in_header abi
              \<le> iov_size (take (length (out_sg (elem req)) - bad_out_num req) (out_sg (elem req)))
            \<and> se_bufsize < iov_size (out_sg (elem req)))"
  using assms
  by (auto simp: fv_queue_worker_bufv_def Let_def split: list.splits)

theorem worker_size_checks_witness:
  "sizeof_fuse_in_header linux_fuse_abi < 1052672
   \<and> bad_out_num example_write_req \<le> length (out_sg (elem example_write_req))
   \<and> \<not> iov_size (take (length (out_sg (elem example_write_req)) - bad_out_num example_write_req)
            (out_sg (elem example_write_req))) < sizeof_fuse_in_header linux_fuse_abi
   \<and> \<not> 1052672 < iov_size (out_sg (elem example_write_req))
   \<and> fv_queue_worker_bufv linux_fuse_abi 1052672 example_mem example_write_req \<noteq> Inl ElemTooShort
   \<and> fv_queue_worker_bufv linux_fuse_abi 1052672 example_mem example_write_req \<noteq> Inl ElemTooLarge"
proof -
  have h1: "sizeof_fuse_in_header linux_fuse_abi < 1052672"
    by (simp add: linux_fuse_abi_def)
  have h2: "bad_out_num example_write_req \<le> length (out_sg (elem example_write_req))"
    by (simp add: example_write_req_def)
  have a: "\<not> iov_size (take (length (out_sg (elem example_write_req)) - bad_out_num example_write_req)
            (out_sg (elem example_write_req))) < sizeof_fuse_in_header linux_fuse_abi"
    by (simp add: example_write_req_def linux_fuse_abi_def iov_size_def)
  have b: "\<not> 1052672 < iov_size (out_sg (elem example_write_req))"
    by (simp add: example_write_req_def iov_size_def)
  from worker_size_checks [OF h1 h2, of example_mem] h1 h2 a b
  show ?thesis by simp
qed

text \<open>
  The claim as stated bounds the readable bytes only. A write whose two headers are
  readable (80 bytes, within the buffer of 1 MiB plus a page) and whose data iovec
  of 2 MiB is unmappable meets both preconditions of the claim and still ends in
  the second \<open>assert(0)\<close>.
\<close>

theorem readable_fits_but_element_too_large:
  "sizeof_fuse_in_header linux_fuse_abi
     \<le> iov_size (take (length (out_sg (elem example_unmappable_req))
                        - bad_out_num example_unmappable_req)
                  (out_sg (elem example_unmappable_req)))
   \<and> iov_size (take (length (out_sg (elem example_unmappable_req))
                        - bad_out_num example_unmappable_req)
                  (out_sg (elem example_unmappable_req))) \<le> 1052672
   \<and> fv_queue_worker_bufv linux_fuse_abi 1052672 example_mem example_unmappable_req
       = Inl ElemTooLarge"
  by (simp add: fv_queue_worker_bufv_def example_unmappable_req_def linux_fuse_abi_def
      iov_size_def Let_def)


subsection \<open>C7: the write fast path\<close>

text \<open>
  C7. Let a header have a positive size. For a fully mappable request (no
  unmappable iovec on either side) that passes the worker's checks, the buffer
  vector is the fast-path vector exactly when there are more than two out iovecs,
  the first is as long as a \<open>fuse_in_header\<close>, the second as long as a
  \<open>fuse_write_in\<close>, and the opcode read from the copied header is \<open>FUSE_WRITE\<close>:
  its first entry is the bounce buffer holding the bytes of the two headers, and
  each remaining out iovec is an entry that points at the iovec's own guest memory,
  with its length. Otherwise the vector is the single bounce buffer holding the
  bytes of all out iovecs; in particular this is so with exactly two out iovecs.
  For any request, mappable or not, a buffer vector with an entry that points into
  guest memory is built only under those four conditions.
\<close>

theorem write_fast_path:
  assumes "0 < sizeof_fuse_in_header abi"
  shows "(sizeof_fuse_in_header abi < se_bufsize
          \<and> bad_in_num req = 0 \<and> bad_out_num req = 0
          \<and> sizeof_fuse_in_header abi \<le> iov_size (out_sg (elem req))
          \<and> iov_size (out_sg (elem req)) \<le> se_bufsize
          \<longrightarrow>
          fv_queue_worker_bufv abi se_bufsize m req =
           (if 2 < length (out_sg (elem req))
               \<and> iov_len (out_sg (elem req) ! 0) = sizeof_fuse_in_header abi
               \<and> iov_len (out_sg (elem req) ! 1) = sizeof_fuse_write_in abi
               \<and> in_header_opcode abi (iov_bytes m (take 1 (out_sg (elem req)))) = FUSE_WRITE abi
            then
              Inr (\<lparr>buf_size = iov_len (out_sg (elem req) ! 0) + iov_len (out_sg (elem req) ! 1),
                    buf_flags = 0, buf_pos = 0,
                    buf_mem = Bounce (iov_bytes m (take 2 (out_sg (elem req))))\<rparr>
                   # map (\<lambda>v. \<lparr>buf_size = iov_len v, buf_flags = 0, buf_pos = - 1,
                                buf_mem = InPlace (iov_base v)\<rparr>)
                       (drop 2 (out_sg (elem req))))
            else
              Inr [\<lparr>buf_size = iov_size (out_sg (elem req)), buf_flags = 0, buf_pos = 0,
                    buf_mem = Bounce (iov_bytes m (out_sg (elem req)))\<rparr>]))
       \<and> (sizeof_fuse_in_header abi < se_bufsize
          \<and> bad_in_num req = 0 \<and> bad_out_num req = 0
          \<and> sizeof_fuse_in_header abi \<le> iov_size (out_sg (elem req))
          \<and> iov_size (out_sg (elem req)) \<le> se_bufsize
          \<and> length (out_sg (elem req)) = 2
          \<longrightarrow>
          fv_queue_worker_bufv abi se_bufsize m req =
              Inr [\<lparr>buf_size = iov_size (out_sg (elem req)), buf_flags = 0, buf_pos = 0,
                    buf_mem = Bounce (iov_bytes m (out_sg (elem req)))\<rparr>])
       \<and> (\<forall>bufv. fv_queue_worker_bufv abi se_bufsize m req = Inr bufv
                  \<and> (\<exists>b \<in> set bufv. \<exists>a. buf_mem b = InPlace a)
          \<longrightarrow>
            2 < length (out_sg (elem req))
            \<and> iov_len (out_sg (elem req) ! 0) = sizeof_fuse_in_header abi
            \<and> iov_len (out_sg (elem req) ! 1) = sizeof_fuse_write_in abi
            \<and> in_header_opcode abi (iov_bytes m (take 1 (out_sg (elem req)))) = FUSE_WRITE abi)"
proof -
  let ?sg = "out_sg (elem req)"
  let ?pre = "sizeof_fuse_in_header abi < se_bufsize
          \<and> bad_in_num req = 0 \<and> bad_out_num req = 0
          \<and> sizeof_fuse_in_header abi \<le> iov_size ?sg
          \<and> iov_size ?sg \<le> se_bufsize"
  let ?generic = "Inr [\<lparr>buf_size = iov_size ?sg, buf_flags = 0, buf_pos = 0,
                        buf_mem = Bounce (iov_bytes m ?sg)\<rparr>]"
  have c1: "?pre \<longrightarrow>
          fv_queue_worker_bufv abi se_bufsize m req =
           (if 2 < length ?sg
               \<and> iov_len (?sg ! 0) = sizeof_fuse_in_header abi
               \<and> iov_len (?sg ! 1) = sizeof_fuse_write_in abi
               \<and> in_header_opcode abi (iov_bytes m (take 1 ?sg)) = FUSE_WRITE abi
            then
              Inr (\<lparr>buf_size = iov_len (?sg ! 0) + iov_len (?sg ! 1),
                    buf_flags = 0, buf_pos = 0,
                    buf_mem = Bounce (iov_bytes m (take 2 ?sg))\<rparr>
                   # map (\<lambda>v. \<lparr>buf_size = iov_len v, buf_flags = 0, buf_pos = - 1,
                                buf_mem = InPlace (iov_base v)\<rparr>)
                       (drop 2 ?sg))
            else ?generic)"
  proof
    assume p: ?pre
    with assms show "fv_queue_worker_bufv abi se_bufsize m req =
           (if 2 < length ?sg
               \<and> iov_len (?sg ! 0) = sizeof_fuse_in_header abi
               \<and> iov_len (?sg ! 1) = sizeof_fuse_write_in abi
               \<and> in_header_opcode abi (iov_bytes m (take 1 ?sg)) = FUSE_WRITE abi
            then
              Inr (\<lparr>buf_size = iov_len (?sg ! 0) + iov_len (?sg ! 1),
                    buf_flags = 0, buf_pos = 0,
                    buf_mem = Bounce (iov_bytes m (take 2 ?sg))\<rparr>
                   # map (\<lambda>v. \<lparr>buf_size = iov_len v, buf_flags = 0, buf_pos = - 1,
                                buf_mem = InPlace (iov_base v)\<rparr>)
                       (drop 2 ?sg))
            else ?generic)"
      by (intro worker_bufv_mappable) simp_all
  qed
  have c2: "sizeof_fuse_in_header abi < se_bufsize
          \<and> bad_in_num req = 0 \<and> bad_out_num req = 0
          \<and> sizeof_fuse_in_header abi \<le> iov_size ?sg
          \<and> iov_size ?sg \<le> se_bufsize
          \<and> length ?sg = 2
          \<longrightarrow> fv_queue_worker_bufv abi se_bufsize m req = ?generic"
  proof
    assume p: "sizeof_fuse_in_header abi < se_bufsize
          \<and> bad_in_num req = 0 \<and> bad_out_num req = 0
          \<and> sizeof_fuse_in_header abi \<le> iov_size ?sg
          \<and> iov_size ?sg \<le> se_bufsize
          \<and> length ?sg = 2"
    then have ?pre by simp
    with c1 p show "fv_queue_worker_bufv abi se_bufsize m req = ?generic"
      by simp
  qed
  have c3: "\<forall>bufv. fv_queue_worker_bufv abi se_bufsize m req = Inr bufv
                  \<and> (\<exists>b \<in> set bufv. \<exists>a. buf_mem b = InPlace a)
          \<longrightarrow>
            2 < length ?sg
            \<and> iov_len (?sg ! 0) = sizeof_fuse_in_header abi
            \<and> iov_len (?sg ! 1) = sizeof_fuse_write_in abi
            \<and> in_header_opcode abi (iov_bytes m (take 1 ?sg)) = FUSE_WRITE abi"
  proof (intro allI impI)
    fix bufv
    assume h: "fv_queue_worker_bufv abi se_bufsize m req = Inr bufv
                  \<and> (\<exists>b \<in> set bufv. \<exists>a. buf_mem b = InPlace a)"
    then obtain b a where "b \<in> set bufv" and "buf_mem b = InPlace a"
      by blast
    with h show "2 < length ?sg
            \<and> iov_len (?sg ! 0) = sizeof_fuse_in_header abi
            \<and> iov_len (?sg ! 1) = sizeof_fuse_write_in abi
            \<and> in_header_opcode abi (iov_bytes m (take 1 ?sg)) = FUSE_WRITE abi"
      by (intro worker_bufv_in_place [of abi se_bufsize m req bufv b a]) simp_all
  qed
  show ?thesis
    by (rule conjI [OF c1 conjI [OF c2 c3]])
qed

theorem write_fast_path_witness:
  "0 < sizeof_fuse_in_header linux_fuse_abi
   \<and> sizeof_fuse_in_header linux_fuse_abi < 1052672
   \<and> bad_in_num example_write_req = 0 \<and> bad_out_num example_write_req = 0
   \<and> sizeof_fuse_in_header linux_fuse_abi \<le> iov_size (out_sg (elem example_write_req))
   \<and> iov_size (out_sg (elem example_write_req)) \<le> 1052672
   \<and> 2 < length (out_sg (elem example_write_req))
   \<and> in_header_opcode linux_fuse_abi (iov_bytes example_mem (take 1 (out_sg (elem example_write_req))))
       = FUSE_WRITE linux_fuse_abi
   \<and> fv_queue_worker_bufv linux_fuse_abi 1052672 example_mem example_write_req =
       Inr [\<lparr>buf_size = 80, buf_flags = 0, buf_pos = 0,
             buf_mem = Bounce (iov_bytes example_mem
                        [\<lparr>iov_base = 0, iov_len = 40\<rparr>, \<lparr>iov_base = 64, iov_len = 40\<rparr>])\<rparr>,
            \<lparr>buf_size = 100, buf_flags = 0, buf_pos = - 1, buf_mem = InPlace 4096\<rparr>,
            \<lparr>buf_size = 50, buf_flags = 0, buf_pos = - 1, buf_mem = InPlace 8192\<rparr>]"
proof -
  have h0: "0 < sizeof_fuse_in_header linux_fuse_abi"
    by (simp add: linux_fuse_abi_def)
  have pre: "sizeof_fuse_in_header linux_fuse_abi < 1052672
          \<and> bad_in_num example_write_req = 0 \<and> bad_out_num example_write_req = 0
          \<and> sizeof_fuse_in_header linux_fuse_abi \<le> iov_size (out_sg (elem example_write_req))
          \<and> iov_size (out_sg (elem example_write_req)) \<le> 1052672"
    by (simp add: example_write_req_def linux_fuse_abi_def iov_size_def)
  have h5: "2 < length (out_sg (elem example_write_req))"
    by (simp add: example_write_req_def)
  have op: "in_header_opcode linux_fuse_abi
              (iov_bytes example_mem (take 1 (out_sg (elem example_write_req))))
            = FUSE_WRITE linux_fuse_abi"
    by (simp add: linux_fuse_abi_def example_write_req_def example_mem_def iov_bytes_def
        iov_addrs_def le_word_def take_map drop_map)
  have l: "iov_len (out_sg (elem example_write_req) ! 0) = sizeof_fuse_in_header linux_fuse_abi
         \<and> iov_len (out_sg (elem example_write_req) ! 1) = sizeof_fuse_write_in linux_fuse_abi"
    by (simp add: example_write_req_def linux_fuse_abi_def)
  from write_fast_path [OF h0, of 1052672 example_write_req example_mem,
      THEN conjunct1, THEN mp, OF pre] h5 op l
  have "fv_queue_worker_bufv linux_fuse_abi 1052672 example_mem example_write_req =
          Inr (\<lparr>buf_size = iov_len (out_sg (elem example_write_req) ! 0)
                          + iov_len (out_sg (elem example_write_req) ! 1),
                buf_flags = 0, buf_pos = 0,
                buf_mem = Bounce (iov_bytes example_mem (take 2 (out_sg (elem example_write_req))))\<rparr>
               # map (\<lambda>v. \<lparr>buf_size = iov_len v, buf_flags = 0, buf_pos = - 1,
                            buf_mem = InPlace (iov_base v)\<rparr>)
                   (drop 2 (out_sg (elem example_write_req))))"
    by simp
  then have r: "fv_queue_worker_bufv linux_fuse_abi 1052672 example_mem example_write_req =
       Inr [\<lparr>buf_size = 80, buf_flags = 0, buf_pos = 0,
             buf_mem = Bounce (iov_bytes example_mem
                        [\<lparr>iov_base = 0, iov_len = 40\<rparr>, \<lparr>iov_base = 64, iov_len = 40\<rparr>])\<rparr>,
            \<lparr>buf_size = 100, buf_flags = 0, buf_pos = - 1, buf_mem = InPlace 4096\<rparr>,
            \<lparr>buf_size = 50, buf_flags = 0, buf_pos = - 1, buf_mem = InPlace 8192\<rparr>]"
    by (simp add: example_write_req_def)
  from h0 pre h5 op r show ?thesis
    by (intro conjI) (simp_all only:)
qed

subsection \<open>C1: the push of a request and its length\<close>

text \<open>
  The device of this repository can answer an IO request with fewer bytes than the
  request asks for: \<open>vhost_user_fs_slave_io\<close> returns the bytes transferred so far
  when a \<open>pread\<close> returns 0. Here the request is the one the daemon sends below,
  2048 bytes of descriptor 5 to guest address 1048576; the first \<open>pread\<close> returns
  100 bytes and the next one 0, and the answer is 100.
\<close>

lemma device_answers_short_count:
  "vhost_user_fs_slave_io
        (\<lambda>w c. if w = [MemoryRegionFind 1048576 2048] then (100, 0) else (0, 0))
        (\<lambda>gpa len. \<lparr>mrs_size = len, mrs_readonly = False, mrs_hostptr = gpa\<rparr>)
        (Some \<lparr>cache_size = 0, cache_host = 0\<rparr>)
        [\<lparr>sm_flags = 1, sm_fd_offset = 0, sm_c_offset = 1048576, sm_len = 2048\<rparr>] 5 []
       = Some (Inr (100,
           [MemoryRegionFind 1048576 2048, Pread 5 1048576 2048 0,
            MemoryRegionFind 1048576 1948, Pread 5 1048576 1948 0, Close 5]))"
  by (simp add: vhost_user_fs_slave_io_def io_while.simps io_body_def
      VHOST_USER_FS_FLAG_MAP_R_def VHOST_USER_FS_FLAG_MAP_W_def Let_def word_sless_alt)

text \<open>The steps of the reply at the example input.\<close>

lemma example_read_bufv:
  "\<exists>pbufv. fv_queue_worker_bufv linux_fuse_abi 1052672 example_read_mem example_read_req
             = Inr pbufv"
  by (simp add: fv_queue_worker_bufv_def Let_def linux_fuse_abi_def example_read_req_def
      iov_size_def example_read_mem_def iov_bytes_def iov_addrs_def read_bytes_def
      le_word_def take_map drop_map)

lemma example_read_header_unique:
  "out_header_unique linux_fuse_abi
     (read_bytes (write_bytes example_read_mem 256
         (out_header_set_len linux_fuse_abi 2064 (read_bytes example_read_mem 256 16)))
        256 16) = 7"
  by (simp add: linux_fuse_abi_def read_bytes_def write_bytes_def example_read_mem_def
      le_word_def le_bytes_def take_map drop_map nth_append)

lemma example_read_copy_header:
  "copy_iov m [\<lparr>iov_base = 256, iov_len = 16\<rparr>]
      [\<lparr>iov_base = 12288, iov_len = 16\<rparr>, \<lparr>iov_base = 1048576, iov_len = 2048\<rparr>] 16
    = Some (copy_bytes m
        (take 16 (iov_addrs [\<lparr>iov_base = 12288, iov_len = 16\<rparr>,
                             \<lparr>iov_base = 1048576, iov_len = 2048\<rparr>]))
        (take 16 (iov_addrs [\<lparr>iov_base = 256, iov_len = 16\<rparr>])))"
  by (rule copy_iov_flat) (simp_all add: iov_size_def)

lemma example_read_preadv_loop:
  "preadv_loop example_short_file 5 st 16
      [\<lparr>iov_base = 12288, iov_len = 16\<rparr>, \<lparr>iov_base = 1048576, iov_len = 2048\<rparr>]
      (Suc 0) 0 2048
    = Inr (emit [Preadv 5 [] 0] st, [\<lparr>iov_base = 1048576, iov_len = 2048\<rparr>], 0, 2048)"
  by (simp add: preadv_loop.simps preadv_body_def example_short_file_def Let_def emit_def
      iov_size_def)

lemma example_read_bad_in_loop:
  "bad_in_loop example_short_file 5 st [\<lparr>iov_base = 1048576, iov_len = 2048\<rparr>] 0 2048 (Suc 0)
    = Inr (Inr (emit [CacheRequestIO [\<lparr>sm_flags = 1, sm_fd_offset = 0,
                                        sm_c_offset = 1048576, sm_len = 2048\<rparr>] 5] st,
                2048, 0))"
  by (simp add: fuse_virtio_io_def example_short_file_def Let_def
      VHOST_USER_FS_FLAG_MAP_R_def word_sless_alt)

lemma example_read_session_result:
  "\<exists>st1 req1.
      example_read_session pbufv example_read_state (example_read_req\<lparr>ch_qidx := 2\<rparr>)
        = Inr (st1, req1)
      \<and> events st1 =
          [Preadv 5 [] 0,
           CacheRequestIO
             [\<lparr>sm_flags = 1, sm_fd_offset = 0, sm_c_offset = 1048576, sm_len = 2048\<rparr>] 5,
           RdLock, MutexLock 2, Push 2 9 2064, Notify 2, MutexUnlock 2, RwUnlock]
      \<and> reply_sent req1 \<and> elem_index (elem req1) = 9"
proof -
  have s: "sizeof_fuse_out_header linux_fuse_abi = 16"
    by (simp add: linux_fuse_abi_def)
  show ?thesis
    by (simp add: example_read_session_def virtio_send_data_iov_def Let_def s iov_size_def
        example_read_state_def example_read_req_def example_read_header_unique
        example_read_copy_header example_read_preadv_loop example_read_bad_in_loop
        locked_push_def vu_queue_push_def vu_queue_notify_def emit_def
        del: bad_in_loop.simps)
qed

text \<open>
  C1 at an unmappable read. The request is chain 9 of request queue 2, handed to
  the worker: two readable header iovecs with the opcode \<open>FUSE_READ\<close>, and a sink of
  one writable iovec of 16 bytes followed by one unmappable iovec of 2048 bytes.
  The session answers with one call of \<open>virtio_send_data_iov\<close>, a header of 16
  bytes and 2048 bytes of the file behind descriptor 5. The header fills the
  writable iovec, so \<open>preadv\<close> gets no iovec and reads nothing, and the IO request
  for the unmappable iovec asks the device for 2048 bytes. The device answers 100,
  the bytes it has transferred. The worker returns after exactly one push of chain
  9 on queue 2, and the length pushed is \<open>2064 = 16 + 2048\<close>, although \<open>16 + 100\<close>
  bytes were written into the sink: for every positive answer the loop over the
  unmappable iovecs takes \<open>msg.len[0]\<close>, the length it asked for, off \<open>len\<close>.
\<close>

theorem short_io_answer_pushed_as_full:
  "vu_fs_cache_request example_short_file [Preadv 5 [] 0]
      [\<lparr>sm_flags = 1, sm_fd_offset = 0, sm_c_offset = 1048576, sm_len = 2048\<rparr>] 5 = 100
   \<and> (\<exists>st1. fv_queue_worker linux_fuse_abi example_read_session 2 example_read_state
               example_read_req = Inr st1
         \<and> events st1 =
             [Preadv 5 [] 0,
              CacheRequestIO
                [\<lparr>sm_flags = 1, sm_fd_offset = 0, sm_c_offset = 1048576, sm_len = 2048\<rparr>] 5,
              RdLock, MutexLock 2, Push 2 9 2064, Notify 2, MutexUnlock 2, RwUnlock,
              Free 9])"
proof -
  obtain pbufv where b:
    "fv_queue_worker_bufv linux_fuse_abi 1052672 example_read_mem example_read_req = Inr pbufv"
    using example_read_bufv by blast
  from example_read_session_result [of pbufv] obtain st1 req1 where
    r: "example_read_session pbufv example_read_state (example_read_req\<lparr>ch_qidx := 2\<rparr>)
          = Inr (st1, req1)"
    and e: "events st1 =
          [Preadv 5 [] 0,
           CacheRequestIO
             [\<lparr>sm_flags = 1, sm_fd_offset = 0, sm_c_offset = 1048576, sm_len = 2048\<rparr>] 5,
           RdLock, MutexLock 2, Push 2 9 2064, Notify 2, MutexUnlock 2, RwUnlock]"
    and rs: "reply_sent req1" and i: "elem_index (elem req1) = 9"
    by blast
  have m: "memory example_read_state = example_read_mem"
    "bufsize example_read_state = 1052672"
    by (simp_all add: example_read_state_def)
  have w: "fv_queue_worker linux_fuse_abi example_read_session 2 example_read_state
             example_read_req = Inr (emit [Free 9] st1)"
    by (simp add: fv_queue_worker_def m b r rs i)
  have a: "vu_fs_cache_request example_short_file [Preadv 5 [] 0]
      [\<lparr>sm_flags = 1, sm_fd_offset = 0, sm_c_offset = 1048576, sm_len = 2048\<rparr>] 5 = 100"
    by (simp add: example_short_file_def)
  from w e a show ?thesis
    by (simp add: emit_def)
qed

end
